theory Spec2Isabelle
  imports Main
begin

section \<open>The dense matrix of \<open>primer/p0_starter.h\<close>\<close>

text \<open>
  The header declares an abstract \<open>Matrix<T>\<close> that owns one contiguous buffer
  \<open>_linear\<close> of \<open>_rows * _cols\<close> elements, the concrete \<open>RowMatrix<T>\<close> that adds
  the row-pointer table \<open>_data\<close> over that buffer, and the static operations
  \<open>Add\<close>, \<open>Multiply\<close> and \<open>GEMM\<close> of \<open>RowMatrixOperations<T>\<close>.

  The embedding keeps the two structures: the buffer is a list, and a row pointer
  \<open>_linear + offset\<close> is the offset it holds, so that \<open>_data[i][j]\<close> is the buffer
  cell at \<open>_data[i] + j\<close>. The dimensions and loop counters are C++ \<open>int\<close>s and are
  modelled by \<open>int\<close>; where the constructors compute with them (\<open>_rows * _cols\<close>,
  \<open>offset += cols\<close>) the 32-bit result is written out. A loop counter stays below
  a dimension, so \<open>i + 1\<close> is an \<open>int\<close> as it stands. The element type \<open>T\<close> is a
  type variable with the operations the code uses on it (\<open>0\<close>, \<open>+\<close>, \<open>*\<close>).
\<close>

subsection \<open>Data\<close>

record 'a Matrix =
  rows :: int
  cols :: int
  linear :: "'a list"

record 'a RowMatrix = "'a Matrix" +
  data :: "int list"

text \<open>
  The ways the code leaves a call early: the \<open>Exception\<close> of type \<open>OUT_OF_RANGE\<close>
  thrown by the accessors, the \<open>assert\<close> of the base constructor, and the
  \<open>std::bad_array_new_length\<close> that \<open>new T[n]\<close> throws for a negative \<open>n\<close>.
\<close>

datatype failure = OUT_OF_RANGE | ASSERT_ABORT | BAD_ARRAY_NEW_LENGTH

subsection \<open>32-bit \<open>int\<close>\<close>

text \<open>
  The largest \<open>int\<close>, and the \<open>int\<close> that a 32-bit two's complement computation
  leaves for the mathematical result \<open>x\<close>.
\<close>

definition INT_MAX :: int where
  "INT_MAX = 2147483647"

definition int_wrap :: "int \<Rightarrow> int" where
  "int_wrap x = (x + 2147483648) mod 4294967296 - 2147483648"

subsection \<open>Construction\<close>

text \<open>
  \<open>new T[_rows * _cols]\<close>: the size is the \<open>int\<close> product of the dimensions. A
  product that has wrapped to a negative \<open>int\<close> makes \<open>new\<close> throw; otherwise the
  buffer has as many cells as the \<open>int\<close> says, which after a wrap is fewer than
  \<open>rows * cols\<close>. The storage is taken to be available, and the constructor does
  not set its contents: the parameter \<open>mem\<close> is what it holds, cell by cell.

  On a matrix whose buffer is shorter than \<open>rows * cols\<close> an access that passes the
  range test can fall outside the buffer: undefined behaviour in the code, and in
  the embedding a list access out of range. Every statement below that reads or
  writes cells is made of matrices that satisfy the class invariant, where no
  access leaves the buffer (\<open>inv_cell_in_buffer\<close>); the statements that speak of
  all matrices are about the range tests alone.
\<close>

definition Matrix_ctor :: "(nat \<Rightarrow> 'a) \<Rightarrow> int \<Rightarrow> int \<Rightarrow> failure + 'a Matrix" where
  "Matrix_ctor mem r c =
     (if r > 0 \<and> c > 0
      then (let n = int_wrap (r * c)
            in if n < 0 then Inl BAD_ARRAY_NEW_LENGTH
               else Inr \<lparr>rows = r, cols = c, linear = map mem [0..<nat n]\<rparr>)
      else Inl ASSERT_ABORT)"

text \<open>The loop \<open>for (int i = 0; i < rows; i++) { _data[i] = _linear + offset; offset += cols; }\<close>.\<close>

function RowMatrix_ctor_loop :: "int \<Rightarrow> int \<Rightarrow> int list \<Rightarrow> int \<Rightarrow> int \<Rightarrow> int list" where
  "RowMatrix_ctor_loop r c d offset i =
     (if i < r
      then RowMatrix_ctor_loop r c (d[nat i := offset]) (int_wrap (offset + c)) (i + 1)
      else d)"
  by pat_completeness auto
termination
  by (relation "measure (\<lambda>(r, c, d, offset, i). nat (r - i))") auto

declare RowMatrix_ctor_loop.simps [simp del]

definition RowMatrix_ctor :: "(nat \<Rightarrow> 'a) \<Rightarrow> int \<Rightarrow> int \<Rightarrow> failure + 'a RowMatrix" where
  "RowMatrix_ctor mem r c =
     (case Matrix_ctor mem r c of
        Inl e \<Rightarrow> Inl e
      | Inr base \<Rightarrow>
          Inr \<lparr>rows = rows base, cols = cols base, linear = linear base,
               data = RowMatrix_ctor_loop r c (replicate (nat r) 0) 0 0\<rparr>)"

subsection \<open>Accessors\<close>

definition GetRowCount :: "'a RowMatrix \<Rightarrow> int" where
  "GetRowCount M = rows M"

definition GetColumnCount :: "'a RowMatrix \<Rightarrow> int" where
  "GetColumnCount M = cols M"

text \<open>\<open>GetElement\<close> is a \<open>const\<close> member: it returns a value or throws, and has no state to return.\<close>

definition GetElement :: "'a RowMatrix \<Rightarrow> int \<Rightarrow> int \<Rightarrow> failure + 'a" where
  "GetElement M i j =
     (if i < 0 \<or> i \<ge> rows M \<or> j < 0 \<or> j \<ge> cols M
      then Inl OUT_OF_RANGE
      else Inr (linear M ! nat (data M ! nat i + j)))"

text \<open>
  A mutating member returns the exception it threw, if any, together with the
  matrix as the call leaves it.
\<close>

definition SetElement :: "'a RowMatrix \<Rightarrow> int \<Rightarrow> int \<Rightarrow> 'a \<Rightarrow> failure option \<times> 'a RowMatrix" where
  "SetElement M i j val =
     (if i < 0 \<or> i \<ge> rows M \<or> j < 0 \<or> j \<ge> cols M
      then (Some OUT_OF_RANGE, M)
      else (None, M\<lparr>linear := (linear M)[nat (data M ! nat i + j) := val]\<rparr>))"

text \<open>The inner and the outer loop of \<open>FillFrom\<close>.\<close>

function FillFrom_cols :: "'a list \<Rightarrow> int \<Rightarrow> 'a RowMatrix \<Rightarrow> int \<Rightarrow> 'a RowMatrix" where
  "FillFrom_cols source i M j =
     (if j < cols M
      then FillFrom_cols source i
             (M\<lparr>linear := (linear M)[nat (data M ! nat i + j) := source ! nat (i * cols M + j)]\<rparr>)
             (j + 1)
      else M)"
  by pat_completeness auto
termination
  by (relation "measure (\<lambda>(source, i, M, j). nat (cols M - j))") auto

declare FillFrom_cols.simps [simp del]

function FillFrom_rows :: "'a list \<Rightarrow> 'a RowMatrix \<Rightarrow> int \<Rightarrow> 'a RowMatrix" where
  "FillFrom_rows source M i =
     (if i < rows M then FillFrom_rows source (FillFrom_cols source i M 0) (i + 1) else M)"
  by pat_completeness auto
termination
proof (relation "measure (\<lambda>(source, M, i). nat (rows M - i))")
  show "wf (measure (\<lambda>(source :: 'a list, M :: 'a RowMatrix, i). nat (rows M - i)))"
    by simp
next
  fix source :: "'a list" and M :: "'a RowMatrix" and i :: int
  assume lt: "i < rows M"
  have keep: "rows (FillFrom_cols src k N j) = rows N"
    for src :: "'a list" and k j and N :: "'a RowMatrix"
  proof (induction src k N j rule: FillFrom_cols.induct)
    case (1 src k N j)
    then show ?case
      by (cases "j < cols N") (simp_all add: FillFrom_cols.simps [of src k N j])
  qed
  from lt show "((source, FillFrom_cols source i M 0, i + 1), (source, M, i))
      \<in> measure (\<lambda>(source, M, i). nat (rows M - i))"
    by (simp add: keep)
qed

declare FillFrom_rows.simps [simp del]

text \<open>
  The size test compares \<open>source.size()\<close> with \<open>(size_t)_rows * _cols\<close>; on the
  positive dimensions that the constructor admits the conversion keeps the value.
\<close>

definition FillFrom :: "'a RowMatrix \<Rightarrow> 'a list \<Rightarrow> failure option \<times> 'a RowMatrix" where
  "FillFrom M source =
     (if int (length source) \<noteq> rows M * cols M
      then (Some OUT_OF_RANGE, M)
      else (None, FillFrom_rows source M 0))"

subsection \<open>Arithmetic on matrices\<close>

text \<open>
  A pointer argument is an \<open>option\<close>: \<open>None\<close> is \<open>nullptr\<close>. The result is the
  returned \<open>unique_ptr\<close> (\<open>None\<close> when it holds \<open>nullptr\<close>), or the failure that
  left the call. An exception of an accessor is caught nowhere, so it leaves the
  operation that made the call.
\<close>

text \<open>The loop over \<open>j\<close> and the loop over \<open>i\<close> of \<open>Add\<close>.\<close>

function Add_cols ::
  "'a::plus RowMatrix \<Rightarrow> 'a RowMatrix \<Rightarrow> int \<Rightarrow> int \<Rightarrow> 'a RowMatrix \<Rightarrow> int \<Rightarrow> failure + 'a RowMatrix" where
  "Add_cols matrixA matrixB colsA i result j =
     (if j < colsA
      then (case GetElement matrixA i j of
              Inl e \<Rightarrow> Inl e
            | Inr valueA \<Rightarrow>
                (case GetElement matrixB i j of
                   Inl e \<Rightarrow> Inl e
                 | Inr valueB \<Rightarrow>
                     (case SetElement result i j (valueA + valueB) of
                        (Some e, _) \<Rightarrow> Inl e
                      | (None, result') \<Rightarrow> Add_cols matrixA matrixB colsA i result' (j + 1))))
      else Inr result)"
  by pat_completeness auto
termination
  by (relation "measure (\<lambda>(matrixA, matrixB, colsA, i, result, j). nat (colsA - j))") auto

declare Add_cols.simps [simp del]

function Add_rows ::
  "'a::plus RowMatrix \<Rightarrow> 'a RowMatrix \<Rightarrow> int \<Rightarrow> int \<Rightarrow> 'a RowMatrix \<Rightarrow> int \<Rightarrow> failure + 'a RowMatrix" where
  "Add_rows matrixA matrixB rowsA colsA result i =
     (if i < rowsA
      then (case Add_cols matrixA matrixB colsA i result 0 of
              Inl e \<Rightarrow> Inl e
            | Inr result' \<Rightarrow> Add_rows matrixA matrixB rowsA colsA result' (i + 1))
      else Inr result)"
  by pat_completeness auto
termination
  by (relation "measure (\<lambda>(matrixA, matrixB, rowsA, colsA, result, i). nat (rowsA - i))") auto

declare Add_rows.simps [simp del]

definition Add ::
  "(nat \<Rightarrow> 'a) \<Rightarrow> 'a::plus RowMatrix option \<Rightarrow> 'a RowMatrix option \<Rightarrow> failure + 'a RowMatrix option" where
  "Add mem A B =
     (case A of
        None \<Rightarrow> Inr None
      | Some matrixA \<Rightarrow>
          (case B of
             None \<Rightarrow> Inr None
           | Some matrixB \<Rightarrow>
               (let rowsA = GetRowCount matrixA; colsA = GetColumnCount matrixA;
                    rowsB = GetRowCount matrixB; colsB = GetColumnCount matrixB
                in if rowsA \<noteq> rowsB \<or> colsA \<noteq> colsB then Inr None
                   else (case RowMatrix_ctor mem rowsA colsB of
                           Inl e \<Rightarrow> Inl e
                         | Inr result \<Rightarrow>
                             (case Add_rows matrixA matrixB rowsA colsA result 0 of
                                Inl e \<Rightarrow> Inl e
                              | Inr result' \<Rightarrow> Inr (Some result'))))))"

text \<open>The loops over \<open>k\<close>, \<open>j\<close> and \<open>i\<close> of \<open>Multiply\<close>; \<open>tmp\<close> starts at \<open>0\<close>.\<close>

function Multiply_inner ::
  "'a::{plus,times} RowMatrix \<Rightarrow> 'a RowMatrix \<Rightarrow> int \<Rightarrow> int \<Rightarrow> int \<Rightarrow> 'a \<Rightarrow> int \<Rightarrow> failure + 'a" where
  "Multiply_inner matrixA matrixB colsA i j tmp k =
     (if k < colsA
      then (case GetElement matrixA i k of
              Inl e \<Rightarrow> Inl e
            | Inr a \<Rightarrow>
                (case GetElement matrixB k j of
                   Inl e \<Rightarrow> Inl e
                 | Inr b \<Rightarrow> Multiply_inner matrixA matrixB colsA i j (tmp + a * b) (k + 1)))
      else Inr tmp)"
  by pat_completeness auto
termination
  by (relation "measure (\<lambda>(matrixA, matrixB, colsA, i, j, tmp, k). nat (colsA - k))") auto

declare Multiply_inner.simps [simp del]

function Multiply_cols ::
  "'a::{zero,plus,times} RowMatrix \<Rightarrow> 'a RowMatrix \<Rightarrow> int \<Rightarrow> int \<Rightarrow> int \<Rightarrow> 'a RowMatrix \<Rightarrow> int
     \<Rightarrow> failure + 'a RowMatrix" where
  "Multiply_cols matrixA matrixB colsA colsB i result j =
     (if j < colsB
      then (case Multiply_inner matrixA matrixB colsA i j 0 0 of
              Inl e \<Rightarrow> Inl e
            | Inr tmp \<Rightarrow>
                (case SetElement result i j tmp of
                   (Some e, _) \<Rightarrow> Inl e
                 | (None, result') \<Rightarrow> Multiply_cols matrixA matrixB colsA colsB i result' (j + 1)))
      else Inr result)"
  by pat_completeness auto
termination
  by (relation "measure (\<lambda>(matrixA, matrixB, colsA, colsB, i, result, j). nat (colsB - j))") auto

declare Multiply_cols.simps [simp del]

function Multiply_rows ::
  "'a::{zero,plus,times} RowMatrix \<Rightarrow> 'a RowMatrix \<Rightarrow> int \<Rightarrow> int \<Rightarrow> int \<Rightarrow> 'a RowMatrix \<Rightarrow> int
     \<Rightarrow> failure + 'a RowMatrix" where
  "Multiply_rows matrixA matrixB rowsA colsA colsB result i =
     (if i < rowsA
      then (case Multiply_cols matrixA matrixB colsA colsB i result 0 of
              Inl e \<Rightarrow> Inl e
            | Inr result' \<Rightarrow> Multiply_rows matrixA matrixB rowsA colsA colsB result' (i + 1))
      else Inr result)"
  by pat_completeness auto
termination
  by (relation "measure (\<lambda>(matrixA, matrixB, rowsA, colsA, colsB, result, i). nat (rowsA - i))") auto

declare Multiply_rows.simps [simp del]

text \<open>
  After the loops \<open>Multiply\<close> executes
  \<open>return std::unique_ptr<RowMatrix<T>>(nullptr);\<close>: the matrix it filled is dropped.
  So that the work of the loops can be stated of \<open>Multiply\<close> itself, a normal exit of
  \<open>Multiply\<close> is the pointer it returns together with the local \<open>result\<close> as it is
  when the \<open>return\<close> runs (\<open>None\<close> on the two early returns, where no \<open>result\<close>
  exists yet). The caller receives \<open>returned\<close> only.
\<close>

record 'a Multiply_exit =
  returned :: "'a RowMatrix option"
  local_result :: "'a RowMatrix option"

definition Multiply ::
  "(nat \<Rightarrow> 'a) \<Rightarrow> 'a::{zero,plus,times} RowMatrix option \<Rightarrow> 'a RowMatrix option
     \<Rightarrow> failure + 'a Multiply_exit" where
  "Multiply mem A B =
     (case A of
        None \<Rightarrow> Inr \<lparr>returned = None, local_result = None\<rparr>
      | Some matrixA \<Rightarrow>
          (case B of
             None \<Rightarrow> Inr \<lparr>returned = None, local_result = None\<rparr>
           | Some matrixB \<Rightarrow>
               (let rowsA = GetRowCount matrixA; colsA = GetColumnCount matrixA;
                    rowsB = GetRowCount matrixB; colsB = GetColumnCount matrixB
                in if colsA \<noteq> rowsB then Inr \<lparr>returned = None, local_result = None\<rparr>
                   else (case RowMatrix_ctor mem rowsA colsB of
                           Inl e \<Rightarrow> Inl e
                         | Inr result \<Rightarrow>
                             (case Multiply_rows matrixA matrixB rowsA colsA colsB result 0 of
                                Inl e \<Rightarrow> Inl e
                              | Inr result' \<Rightarrow>
                                  Inr \<lparr>returned = None, local_result = Some result'\<rparr>)))))"

text \<open>
  \<open>GEMM\<close> is \<open>return Add(Multiply(matrixA, matrixB), matrixC);\<close>. \<open>Multiply\<close>
  returns a \<open>std::unique_ptr<RowMatrix<T>>\<close> and the first parameter of \<open>Add\<close> is a
  \<open>const RowMatrix<T>*\<close>; no conversion leads from the one to the other, so the line
  is ill-formed as soon as \<open>GEMM\<close> is instantiated, and the member as written has no
  behaviour. The definition below is not that member: it is the composition the
  line writes down, read with the pointer that the \<open>unique_ptr\<close> holds as the first
  operand of \<open>Add\<close> (the call \<open>Add(Multiply(matrixA, matrixB).get(), matrixC)\<close>), the
  one reading under which the line has a value.
\<close>

definition GEMM ::
  "(nat \<Rightarrow> 'a) \<Rightarrow> 'a::{zero,plus,times} RowMatrix option \<Rightarrow> 'a RowMatrix option \<Rightarrow> 'a RowMatrix option
     \<Rightarrow> failure + 'a RowMatrix option" where
  "GEMM mem A B C =
     (case Multiply mem A B of
        Inl e \<Rightarrow> Inl e
      | Inr product \<Rightarrow> Add mem (returned product) C)"

subsection \<open>The class invariant\<close>

text \<open>
  What the constructor establishes, when \<open>rows * cols\<close> is an \<open>int\<close>, and every
  member keeps: positive dimensions, a buffer of \<open>rows * cols\<close> cells, and row \<open>r\<close>
  of the table at offset \<open>r * cols\<close>.
\<close>

definition RowMatrix_inv :: "'a RowMatrix \<Rightarrow> bool" where
  "RowMatrix_inv M \<longleftrightarrow>
     0 < rows M \<and> 0 < cols M \<and>
     length (linear M) = nat (rows M * cols M) \<and>
     data M = map (\<lambda>r. int r * cols M) [0..<nat (rows M)]"

text \<open>
  A pointer operand is \<open>nullptr\<close> or points to a matrix that the constructor built:
  it satisfies the invariant and its cell count is an \<open>int\<close>.
\<close>

definition operand_ok :: "'a RowMatrix option \<Rightarrow> bool" where
  "operand_ok P =
     (case P of None \<Rightarrow> True | Some M \<Rightarrow> RowMatrix_inv M \<and> rows M * cols M \<le> INT_MAX)"

subsection \<open>Sample matrices\<close>

definition sample_2x3 :: "int RowMatrix" where
  "sample_2x3 = \<lparr>rows = 2, cols = 3, linear = [1, 2, 3, 4, 5, 6], data = [0, 3]\<rparr>"

definition other_2x3 :: "int RowMatrix" where
  "other_2x3 = \<lparr>rows = 2, cols = 3, linear = [10, 20, 30, 40, 50, 60], data = [0, 3]\<rparr>"

definition sample_3x2 :: "int RowMatrix" where
  "sample_3x2 = \<lparr>rows = 3, cols = 2, linear = [1, 2, 3, 4, 5, 6], data = [0, 2, 4]\<rparr>"

text \<open>The operands of the GEMM scenario.\<close>

definition gemm_A :: "int RowMatrix" where
  "gemm_A = \<lparr>rows = 2, cols = 2, linear = [1, 2, 3, 4], data = [0, 2]\<rparr>"

definition gemm_B :: "int RowMatrix" where
  "gemm_B = \<lparr>rows = 2, cols = 2, linear = [5, 6, 7, 8], data = [0, 2]\<rparr>"

definition gemm_C :: "int RowMatrix" where
  "gemm_C = \<lparr>rows = 2, cols = 2, linear = [1, 1, 1, 1], data = [0, 2]\<rparr>"

text \<open>
  A column of 46341 cells and a row of 46341 cells, all zero: each has 46341 cells,
  and their product has \<open>46341 * 46341 = 2147488281\<close>, more than the largest \<open>int\<close>.
\<close>

definition long_column :: "int RowMatrix" where
  "long_column =
     \<lparr>rows = 46341, cols = 1, linear = replicate 46341 0,
      data = map (\<lambda>r. int r * 1) [0..<nat 46341]\<rparr>"

definition long_row :: "int RowMatrix" where
  "long_row =
     \<lparr>rows = 1, cols = 46341, linear = replicate 46341 0,
      data = map (\<lambda>r. int r * 46341) [0..<nat 1]\<rparr>"

subsection \<open>A buffer after a loop\<close>

text \<open>
  The contents of a buffer \<open>xs\<close> once the cells \<open>lo, \<dots>, hi - 1\<close> have been written
  with the values \<open>f lo, \<dots>, f (hi - 1)\<close>. The loops are described by it; no
  operation of the header computes it.
\<close>

definition overwrite :: "(nat \<Rightarrow> 'a) \<Rightarrow> nat \<Rightarrow> nat \<Rightarrow> 'a list \<Rightarrow> 'a list" where
  "overwrite f lo hi xs = map (\<lambda>p. if lo \<le> p \<and> p < hi then f p else xs ! p) [0..<length xs]"

subsection \<open>The product, as the specification words it\<close>

text \<open>
  \<open>R[i][j] = \<Sum>\<^sub>k A[i][k] * B[k][j]\<close>, accumulated in \<open>T\<close> from the additive
  identity in the order \<open>k = 0, 1, \<dots>\<close>; \<open>product_cell\<close> is that entry for the buffer
  cell \<open>p\<close> of a result with \<open>B.cols\<close> columns. These two follow the specification,
  not the header, and are what the loops of \<open>Multiply\<close> are compared with.
\<close>

definition product_entry :: "'a::{zero,plus,times} RowMatrix \<Rightarrow> 'a RowMatrix \<Rightarrow> int \<Rightarrow> int \<Rightarrow> 'a" where
  "product_entry A B i j =
     foldl (\<lambda>acc k. acc + linear A ! nat (i * cols A + int k) * linear B ! nat (int k * cols B + j))
       0 [0..<nat (cols A)]"

definition product_cell :: "'a::{zero,plus,times} RowMatrix \<Rightarrow> 'a RowMatrix \<Rightarrow> nat \<Rightarrow> 'a" where
  "product_cell A B p = product_entry A B (int p div cols B) (int p mod cols B)"

section \<open>Properties\<close>

subsection \<open>Addressing\<close>

lemma cell_less:
  fixes i j r c :: int
  assumes "0 \<le> i" "i < r" "0 \<le> j" "j < c"
  shows "i * c + j < r * c"
proof -
  have "i * c + j < i * c + c" using assms by simp
  also have "\<dots> = (i + 1) * c" by (simp add: algebra_simps)
  also have "\<dots> \<le> r * c" using assms by (intro mult_right_mono) auto
  finally show ?thesis .
qed

lemma cell_nonneg:
  fixes i j c :: int
  shows "0 \<le> i \<Longrightarrow> 0 \<le> j \<Longrightarrow> 0 < c \<Longrightarrow> 0 \<le> i * c + j"
  by simp

lemma cell_inj:
  fixes i j i' j' c :: int
  assumes "0 \<le> j" "j < c" "0 \<le> j'" "j' < c" "i * c + j = i' * c + j'"
  shows "i = i' \<and> j = j'"
proof -
  have dm: "(a * c + b) div c = a \<and> (a * c + b) mod c = b" if "0 \<le> b" "b < c" for a b :: int
    using that by (simp add: div_pos_pos_trivial)
  have "(i * c + j) div c = (i' * c + j') div c" "(i * c + j) mod c = (i' * c + j') mod c"
    using assms(5) by simp_all
  then show ?thesis using dm [of j i] dm [of j' i'] assms(1-4) by simp
qed

lemma inv_row_offset:
  assumes "RowMatrix_inv M" "0 \<le> i" "i < rows M"
  shows "data M ! nat i = i * cols M"
proof -
  have "nat i < nat (rows M)" using assms by simp
  then show ?thesis using assms by (simp add: RowMatrix_inv_def)
qed

lemma inv_cell_in_buffer:
  assumes "RowMatrix_inv M" "0 \<le> i" "i < rows M" "0 \<le> j" "j < cols M"
  shows "nat (i * cols M + j) < length (linear M)"
proof -
  have "i * cols M + j < rows M * cols M" using assms by (intro cell_less) auto
  moreover have "0 \<le> i * cols M + j" using assms by simp
  ultimately show ?thesis using assms(1) by (simp add: RowMatrix_inv_def)
qed

lemma GetElement_inv:
  assumes "RowMatrix_inv M" "0 \<le> i" "i < rows M" "0 \<le> j" "j < cols M"
  shows "GetElement M i j = Inr (linear M ! nat (i * cols M + j))"
  using assms by (simp add: GetElement_def inv_row_offset)

lemma SetElement_inv:
  assumes "RowMatrix_inv M" "0 \<le> i" "i < rows M" "0 \<le> j" "j < cols M"
  shows "SetElement M i j v = (None, M\<lparr>linear := (linear M)[nat (i * cols M + j) := v]\<rparr>)"
  using assms by (simp add: SetElement_def inv_row_offset)

lemma inv_linear_update:
  "RowMatrix_inv M \<Longrightarrow> length xs = length (linear M) \<Longrightarrow> RowMatrix_inv (M\<lparr>linear := xs\<rparr>)"
  by (simp add: RowMatrix_inv_def)

subsection \<open>Construction\<close>

lemma int_wrap_id:
  "- 2147483648 \<le> x \<Longrightarrow> x \<le> INT_MAX \<Longrightarrow> int_wrap x = x"
  by (simp add: int_wrap_def INT_MAX_def)

lemma ctor_loop_length:
  "length (RowMatrix_ctor_loop r c d offset i) = length d"
proof (induction r c d offset i rule: RowMatrix_ctor_loop.induct)
  case (1 r c d offset i)
  then show ?case
    by (cases "i < r") (simp_all add: RowMatrix_ctor_loop.simps [of r c d offset i])
qed

lemma ctor_loop_nth:
  assumes "0 \<le> i" "offset = i * c" "k < length d" "length d = nat r"
    and "0 \<le> c" "r * c \<le> INT_MAX"
  shows "RowMatrix_ctor_loop r c d offset i ! k = (if nat i \<le> k then int k * c else d ! k)"
  using assms
proof (induction r c d offset i rule: RowMatrix_ctor_loop.induct)
  case (1 r c d offset i)
  show ?case
  proof (cases "i < r")
    case True
    have "(i + 1) * c \<le> r * c"
      using True "1.prems"(5) by (intro mult_right_mono) auto
    moreover have "0 \<le> (i + 1) * c"
      using "1.prems"(1,5) by simp
    ultimately have "int_wrap ((i + 1) * c) = (i + 1) * c"
      using "1.prems"(6) by (intro int_wrap_id) auto
    then have next_offset: "int_wrap (offset + c) = (i + 1) * c"
      using "1.prems"(2) by (simp add: algebra_simps)
    have step: "RowMatrix_ctor_loop r c d offset i
        = RowMatrix_ctor_loop r c (d[nat i := offset]) (int_wrap (offset + c)) (i + 1)"
      using True by (simp add: RowMatrix_ctor_loop.simps [of r c d offset i])
    have "RowMatrix_ctor_loop r c (d[nat i := offset]) (int_wrap (offset + c)) (i + 1) ! k
        = (if nat (i + 1) \<le> k then int k * c else d[nat i := offset] ! k)"
      using "1.prems" True next_offset by (intro "1.IH") simp_all
    also have "\<dots> = (if nat i \<le> k then int k * c else d ! k)"
    proof (cases "k = nat i")
      case True
      moreover have "\<not> nat (i + 1) \<le> nat i" using "1.prems"(1) by simp
      moreover have "int (nat i) = i" using "1.prems"(1) by simp
      ultimately show ?thesis using "1.prems" by simp
    next
      case False
      then show ?thesis using "1.prems" by auto
    qed
    finally show ?thesis using step by simp
  next
    case False
    then have "RowMatrix_ctor_loop r c d offset i = d"
      by (simp add: RowMatrix_ctor_loop.simps [of r c d offset i])
    moreover have "\<not> nat i \<le> k" using False "1.prems" by simp
    ultimately show ?thesis by simp
  qed
qed

text \<open>The constructor sets the two dimensions as given, and leaves by the \<open>assert\<close> or by \<open>new\<close> only.\<close>

lemma RowMatrix_ctor_shape:
  "RowMatrix_ctor mem r c = Inr M \<Longrightarrow> rows M = r \<and> cols M = c"
  by (auto simp add: RowMatrix_ctor_def Matrix_ctor_def Let_def split: if_splits)

lemma RowMatrix_ctor_failure:
  "RowMatrix_ctor mem r c \<noteq> Inl OUT_OF_RANGE"
  by (simp add: RowMatrix_ctor_def Matrix_ctor_def Let_def)

text \<open>When the cell count is an \<open>int\<close>, the constructor returns a matrix that satisfies the invariant.\<close>

lemma RowMatrix_ctor_inv:
  assumes "0 < r" "0 < c" "r * c \<le> INT_MAX"
  shows "\<exists>M. RowMatrix_ctor mem r c = Inr M \<and> RowMatrix_inv M \<and> rows M = r \<and> cols M = c
             \<and> linear M = map mem [0..<nat (r * c)]"
proof -
  let ?d = "RowMatrix_ctor_loop r c (replicate (nat r) 0) 0 0"
  have "?d = map (\<lambda>k. int k * c) [0..<nat r]"
  proof (rule nth_equalityI)
    show "length ?d = length (map (\<lambda>k. int k * c) [0..<nat r])"
      by (simp add: ctor_loop_length)
  next
    fix k assume "k < length ?d"
    then have k: "k < nat r" by (simp add: ctor_loop_length)
    then have "?d ! k = int k * c"
      using assms by (subst ctor_loop_nth) simp_all
    then show "?d ! k = map (\<lambda>k. int k * c) [0..<nat r] ! k" using k by simp
  qed
  moreover have nonneg: "\<not> r * c < 0" using assms by (simp add: not_less)
  moreover from nonneg have "int_wrap (r * c) = r * c"
    using assms(3) by (intro int_wrap_id) auto
  ultimately show ?thesis using assms(1,2)
    by (simp add: RowMatrix_ctor_def Matrix_ctor_def RowMatrix_inv_def Let_def)
qed

text \<open>When the \<open>int\<close> product of the dimensions is negative, the constructor throws.\<close>

lemma RowMatrix_ctor_throws:
  assumes "0 < r" "0 < c" "int_wrap (r * c) < 0"
  shows "RowMatrix_ctor mem r c = Inl BAD_ARRAY_NEW_LENGTH"
  using assms by (simp add: RowMatrix_ctor_def Matrix_ctor_def Let_def)

subsection \<open>The sample matrices satisfy the invariant\<close>

lemma sample_2x3_inv: "RowMatrix_inv sample_2x3"
  by (simp add: RowMatrix_inv_def sample_2x3_def upt_rec)

lemma other_2x3_inv: "RowMatrix_inv other_2x3"
  by (simp add: RowMatrix_inv_def other_2x3_def upt_rec)

lemma sample_3x2_inv: "RowMatrix_inv sample_3x2"
  by (simp add: RowMatrix_inv_def sample_3x2_def upt_rec)

lemma gemm_A_inv: "RowMatrix_inv gemm_A"
  by (simp add: RowMatrix_inv_def gemm_A_def upt_rec)

lemma gemm_B_inv: "RowMatrix_inv gemm_B"
  by (simp add: RowMatrix_inv_def gemm_B_def upt_rec)

lemma gemm_C_inv: "RowMatrix_inv gemm_C"
  by (simp add: RowMatrix_inv_def gemm_C_def upt_rec)

subsection \<open>Element access\<close>

text \<open>
  Claim C5. On a matrix that satisfies the class invariant, for every value \<open>v\<close> and
  every index pair with \<open>0 \<le> i < rows\<close> and \<open>0 \<le> j < cols\<close>, \<open>SetElement(i, j, v)\<close>
  returns normally and \<open>GetElement(i, j)\<close> on the matrix it leaves returns \<open>v\<close>.
\<close>

theorem SetElement_then_GetElement:
  assumes "RowMatrix_inv M" "0 \<le> i" "i < rows M" "0 \<le> j" "j < cols M"
  shows "fst (SetElement M i j v) = None \<and> GetElement (snd (SetElement M i j v)) i j = Inr v"
proof -
  let ?M' = "M\<lparr>linear := (linear M)[nat (i * cols M + j) := v]\<rparr>"
  have set: "SetElement M i j v = (None, ?M')"
    using assms by (rule SetElement_inv)
  have "RowMatrix_inv ?M'"
    using assms(1) by (simp add: inv_linear_update)
  then have "GetElement ?M' i j = Inr (linear ?M' ! nat (i * cols ?M' + j))"
    using assms by (intro GetElement_inv) simp_all
  moreover have "nat (i * cols M + j) < length (linear M)"
    using assms by (rule inv_cell_in_buffer)
  ultimately show ?thesis using set by simp
qed

theorem SetElement_then_GetElement_witness:
  "RowMatrix_inv sample_2x3 \<and> (1::int) < rows sample_2x3 \<and> (2::int) < cols sample_2x3
   \<and> fst (SetElement sample_2x3 1 2 42) = None
   \<and> GetElement (snd (SetElement sample_2x3 1 2 42)) 1 2 = Inr 42"
  using SetElement_then_GetElement [of sample_2x3 1 2 42] sample_2x3_inv
  by (simp add: sample_2x3_def)

text \<open>
  Claim C6. For every matrix and every index pair with \<open>i\<close> outside \<open>[0, rows)\<close> or
  \<open>j\<close> outside \<open>[0, cols)\<close>, \<open>GetElement\<close> and \<open>SetElement\<close> both throw the
  out-of-range exception, and the matrix after the rejected \<open>SetElement\<close> is the matrix
  before it (\<open>GetElement\<close> is \<open>const\<close>).
\<close>

theorem out_of_range_rejected:
  assumes "i < 0 \<or> rows M \<le> i \<or> j < 0 \<or> cols M \<le> j"
  shows "GetElement M i j = Inl OUT_OF_RANGE \<and> SetElement M i j v = (Some OUT_OF_RANGE, M)"
  using assms by (auto simp add: GetElement_def SetElement_def)

theorem out_of_range_rejected_witness:
  "rows sample_2x3 \<le> 2 \<and> GetElement sample_2x3 2 0 = Inl OUT_OF_RANGE
   \<and> SetElement sample_2x3 2 0 7 = (Some OUT_OF_RANGE, sample_2x3)"
  using out_of_range_rejected [of 2 sample_2x3 0 7]
  by (simp add: sample_2x3_def)

text \<open>
  Claim C10. On a matrix that satisfies the class invariant, \<open>SetElement(i, j, v)\<close> at
  an in-range \<open>(i, j)\<close> leaves the element at every other in-range position
  \<open>(i', j')\<close> as it was, and leaves \<open>rows\<close> and \<open>cols\<close> as they were.
\<close>

theorem SetElement_frame:
  assumes "RowMatrix_inv M" "0 \<le> i" "i < rows M" "0 \<le> j" "j < cols M"
    and "0 \<le> i'" "i' < rows M" "0 \<le> j'" "j' < cols M" "(i', j') \<noteq> (i, j)"
  shows "GetElement (snd (SetElement M i j v)) i' j' = GetElement M i' j'
         \<and> rows (snd (SetElement M i j v)) = rows M
         \<and> cols (snd (SetElement M i j v)) = cols M"
proof -
  let ?M' = "M\<lparr>linear := (linear M)[nat (i * cols M + j) := v]\<rparr>"
  have set: "SetElement M i j v = (None, ?M')"
    using assms(1-5) by (rule SetElement_inv)
  have "i' * cols M + j' \<noteq> i * cols M + j"
    using cell_inj [of j' "cols M" j i' i] assms by auto
  moreover have "0 \<le> i' * cols M + j'" "0 \<le> i * cols M + j"
    using assms by simp_all
  ultimately have other: "nat (i' * cols M + j') \<noteq> nat (i * cols M + j)"
    by simp
  have "RowMatrix_inv ?M'"
    using assms(1) by (simp add: inv_linear_update)
  then have "GetElement ?M' i' j' = Inr (linear ?M' ! nat (i' * cols ?M' + j'))"
    using assms by (intro GetElement_inv) simp_all
  moreover have "GetElement M i' j' = Inr (linear M ! nat (i' * cols M + j'))"
    using assms by (intro GetElement_inv)
  ultimately show ?thesis using set other by simp
qed

theorem SetElement_frame_witness:
  "RowMatrix_inv sample_2x3 \<and> ((0::int), (1::int)) \<noteq> (1, 2)
   \<and> GetElement (snd (SetElement sample_2x3 1 2 42)) 0 1 = Inr 2
   \<and> GetElement sample_2x3 0 1 = Inr 2
   \<and> rows (snd (SetElement sample_2x3 1 2 42)) = 2
   \<and> cols (snd (SetElement sample_2x3 1 2 42)) = 3"
  using SetElement_frame [of sample_2x3 1 2 0 1 42] sample_2x3_inv
  by (simp add: sample_2x3_def GetElement_def SetElement_def)

subsection \<open>Buffers after a loop\<close>

lemma overwrite_length [simp]: "length (overwrite f lo hi xs) = length xs"
  by (simp add: overwrite_def)

lemma overwrite_nth:
  "p < length xs \<Longrightarrow> overwrite f lo hi xs ! p = (if lo \<le> p \<and> p < hi then f p else xs ! p)"
  by (simp add: overwrite_def)

lemma overwrite_none: "hi \<le> lo \<Longrightarrow> overwrite f lo hi xs = xs"
  by (rule nth_equalityI) (auto simp add: overwrite_nth)

lemma overwrite_step:
  assumes "lo < hi" "lo < length xs"
  shows "overwrite f (Suc lo) hi (xs[lo := f lo]) = overwrite f lo hi xs"
proof (rule nth_equalityI)
  show "length (overwrite f (Suc lo) hi (xs[lo := f lo])) = length (overwrite f lo hi xs)"
    by simp
next
  fix p assume "p < length (overwrite f (Suc lo) hi (xs[lo := f lo]))"
  then have p: "p < length xs" by simp
  show "overwrite f (Suc lo) hi (xs[lo := f lo]) ! p = overwrite f lo hi xs ! p"
  proof (cases "p = lo")
    case True
    then show ?thesis using assms p by (simp add: overwrite_nth)
  next
    case False
    then show ?thesis using p by (auto simp add: overwrite_nth)
  qed
qed

lemma overwrite_join:
  assumes "lo \<le> mid" "mid \<le> hi"
  shows "overwrite f mid hi (overwrite f lo mid xs) = overwrite f lo hi xs"
proof (rule nth_equalityI)
  show "length (overwrite f mid hi (overwrite f lo mid xs)) = length (overwrite f lo hi xs)"
    by simp
next
  fix p assume "p < length (overwrite f mid hi (overwrite f lo mid xs))"
  then have "p < length xs" by simp
  then show "overwrite f mid hi (overwrite f lo mid xs) ! p = overwrite f lo hi xs ! p"
    using assms by (auto simp add: overwrite_nth)
qed

lemma overwrite_all:
  "length xs \<le> hi \<Longrightarrow> overwrite f 0 hi xs = map f [0..<length xs]"
  by (rule nth_equalityI) (auto simp add: overwrite_nth)

subsection \<open>The loops of \<open>FillFrom\<close>\<close>

lemma nat_cell_Suc:
  fixes i j c :: int
  assumes "0 \<le> i" "0 \<le> j" "0 < c"
  shows "nat (i * c + (j + 1)) = Suc (nat (i * c + j))"
proof -
  have "0 \<le> i * c + j" using assms by simp
  then show ?thesis by (simp add: add.assoc nat_add_distrib)
qed

lemma FillFrom_cols_buffer:
  assumes "RowMatrix_inv M" "0 \<le> i" "i < rows M" "0 \<le> j"
  shows "FillFrom_cols source i M j =
         M\<lparr>linear := overwrite (\<lambda>p. source ! p) (nat (i * cols M + j)) (nat (i * cols M + cols M))
                       (linear M)\<rparr>"
  using assms
proof (induction source i M j rule: FillFrom_cols.induct)
  case (1 source i M j)
  let ?f = "\<lambda>p. source ! p"
  let ?lo = "nat (i * cols M + j)" and ?hi = "nat (i * cols M + cols M)"
  have c: "0 < cols M" using "1.prems"(1) by (simp add: RowMatrix_inv_def)
  show ?case
  proof (cases "j < cols M")
    case True
    let ?M1 = "M\<lparr>linear := (linear M)[?lo := ?f ?lo]\<rparr>"
    have off: "data M ! nat i = i * cols M"
      using "1.prems" by (intro inv_row_offset)
    have unfold: "FillFrom_cols source i M j = FillFrom_cols source i ?M1 (j + 1)"
      using True off by (simp add: FillFrom_cols.simps [of source i M j])
    have inv1: "RowMatrix_inv ?M1"
      using "1.prems"(1) by (simp add: inv_linear_update)
    have "FillFrom_cols source i ?M1 (j + 1) =
          ?M1\<lparr>linear := overwrite ?f (nat (i * cols ?M1 + (j + 1))) (nat (i * cols ?M1 + cols ?M1))
                          (linear ?M1)\<rparr>"
      using "1.IH" [OF True] inv1 "1.prems" off by simp
    also have "\<dots> = M\<lparr>linear := overwrite ?f (Suc ?lo) ?hi ((linear M)[?lo := ?f ?lo])\<rparr>"
      using "1.prems" c by (simp add: nat_cell_Suc)
    also have "overwrite ?f (Suc ?lo) ?hi ((linear M)[?lo := ?f ?lo]) = overwrite ?f ?lo ?hi (linear M)"
    proof (rule overwrite_step)
      have "0 \<le> i * cols M + j" using "1.prems" c by simp
      moreover have "i * cols M + j < i * cols M + cols M" using True by simp
      ultimately show "?lo < ?hi" by linarith
      show "?lo < length (linear M)" using "1.prems" True by (intro inv_cell_in_buffer)
    qed
    finally show ?thesis using unfold by simp
  next
    case False
    then have "FillFrom_cols source i M j = M"
      by (simp add: FillFrom_cols.simps [of source i M j])
    moreover have "overwrite ?f ?lo ?hi (linear M) = linear M"
      using False by (intro overwrite_none) simp
    ultimately show ?thesis by simp
  qed
qed

lemma FillFrom_rows_buffer:
  assumes "RowMatrix_inv M" "0 \<le> i"
  shows "FillFrom_rows source M i =
         M\<lparr>linear := overwrite (\<lambda>p. source ! p) (nat (i * cols M)) (nat (rows M * cols M)) (linear M)\<rparr>"
  using assms
proof (induction source M i rule: FillFrom_rows.induct)
  case (1 source M i)
  let ?f = "\<lambda>p. source ! p"
  have c: "0 < cols M" using "1.prems"(1) by (simp add: RowMatrix_inv_def)
  show ?case
  proof (cases "i < rows M")
    case True
    let ?mid = "nat ((i + 1) * cols M)"
    let ?M1 = "M\<lparr>linear := overwrite ?f (nat (i * cols M)) ?mid (linear M)\<rparr>"
    have row: "FillFrom_cols source i M 0 = ?M1"
      using FillFrom_cols_buffer [of M i 0 source] "1.prems" True by (simp add: algebra_simps)
    have unfold: "FillFrom_rows source M i = FillFrom_rows source ?M1 (i + 1)"
      using True row by (simp add: FillFrom_rows.simps [of source M i])
    have inv1: "RowMatrix_inv ?M1"
      using "1.prems"(1) by (simp add: inv_linear_update)
    have "FillFrom_rows source ?M1 (i + 1) =
          ?M1\<lparr>linear := overwrite ?f (nat ((i + 1) * cols ?M1)) (nat (rows ?M1 * cols ?M1)) (linear ?M1)\<rparr>"
      using "1.IH" [OF True] inv1 "1.prems" row by simp
    also have "\<dots> = M\<lparr>linear := overwrite ?f ?mid (nat (rows M * cols M))
                                 (overwrite ?f (nat (i * cols M)) ?mid (linear M))\<rparr>"
      by simp
    also have "overwrite ?f ?mid (nat (rows M * cols M)) (overwrite ?f (nat (i * cols M)) ?mid (linear M))
             = overwrite ?f (nat (i * cols M)) (nat (rows M * cols M)) (linear M)"
    proof (rule overwrite_join)
      show "nat (i * cols M) \<le> ?mid" using c "1.prems" by (simp add: algebra_simps)
      have "(i + 1) * cols M \<le> rows M * cols M" using True c by (intro mult_right_mono) auto
      then show "?mid \<le> nat (rows M * cols M)" by simp
    qed
    finally show ?thesis using unfold by simp
  next
    case False
    then have "FillFrom_rows source M i = M"
      by (simp add: FillFrom_rows.simps [of source M i])
    moreover have "rows M * cols M \<le> i * cols M" using False c by (intro mult_right_mono) auto
    then have "overwrite ?f (nat (i * cols M)) (nat (rows M * cols M)) (linear M) = linear M"
      by (intro overwrite_none) simp
    ultimately show ?thesis by simp
  qed
qed

lemma FillFrom_exact:
  assumes "RowMatrix_inv M" "int (length source) = rows M * cols M"
  shows "FillFrom M source = (None, M\<lparr>linear := source\<rparr>)"
proof -
  have len: "length (linear M) = length source"
    using assms by (simp add: RowMatrix_inv_def)
  have "FillFrom_rows source M 0 =
        M\<lparr>linear := overwrite (\<lambda>p. source ! p) 0 (nat (rows M * cols M)) (linear M)\<rparr>"
    using FillFrom_rows_buffer [of M 0 source] assms(1) by simp
  also have "overwrite (\<lambda>p. source ! p) 0 (nat (rows M * cols M)) (linear M)
           = map (\<lambda>p. source ! p) [0..<length (linear M)]"
    using assms(1) by (intro overwrite_all) (simp add: RowMatrix_inv_def)
  also have "\<dots> = source"
    using len by (simp add: map_nth)
  finally show ?thesis using assms(2) by (simp add: FillFrom_def)
qed

text \<open>
  Claim C7. On a matrix that satisfies the class invariant: when \<open>seq\<close> has exactly
  \<open>rows * cols\<close> elements, \<open>FillFrom(seq)\<close> returns normally and afterwards
  \<open>GetElement(i, j)\<close> is \<open>seq[i * cols + j]\<close>, an element of \<open>seq\<close>, for every valid
  \<open>(i, j)\<close>; when \<open>seq\<close> has any other length, \<open>FillFrom\<close> throws the out-of-range
  exception and the matrix is the one before the call.
\<close>

theorem FillFrom_spec:
  assumes "RowMatrix_inv M"
  shows "(int (length seq) = rows M * cols M \<longrightarrow>
            fst (FillFrom M seq) = None \<and>
            (\<forall>i j. 0 \<le> i \<and> i < rows M \<and> 0 \<le> j \<and> j < cols M \<longrightarrow>
               nat (i * cols M + j) < length seq \<and>
               GetElement (snd (FillFrom M seq)) i j = Inr (seq ! nat (i * cols M + j))))
       \<and> (int (length seq) \<noteq> rows M * cols M \<longrightarrow> FillFrom M seq = (Some OUT_OF_RANGE, M))"
proof (intro conjI impI allI)
  assume len: "int (length seq) = rows M * cols M"
  then have fill: "FillFrom M seq = (None, M\<lparr>linear := seq\<rparr>)"
    using assms by (intro FillFrom_exact)
  then show "fst (FillFrom M seq) = None" by simp
  have inv': "RowMatrix_inv (M\<lparr>linear := seq\<rparr>)"
    using assms len by (intro inv_linear_update) (simp_all add: RowMatrix_inv_def)
  fix i j assume ij: "0 \<le> i \<and> i < rows M \<and> 0 \<le> j \<and> j < cols M"
  have "nat (i * cols (M\<lparr>linear := seq\<rparr>) + j) < length (linear (M\<lparr>linear := seq\<rparr>))"
    using inv' ij by (intro inv_cell_in_buffer) simp_all
  then show "nat (i * cols M + j) < length seq" by simp
  have "GetElement (M\<lparr>linear := seq\<rparr>) i j
        = Inr (linear (M\<lparr>linear := seq\<rparr>) ! nat (i * cols (M\<lparr>linear := seq\<rparr>) + j))"
    using inv' ij by (intro GetElement_inv) simp_all
  then show "GetElement (snd (FillFrom M seq)) i j = Inr (seq ! nat (i * cols M + j))"
    using fill by simp
next
  assume "int (length seq) \<noteq> rows M * cols M"
  then show "FillFrom M seq = (Some OUT_OF_RANGE, M)"
    by (simp add: FillFrom_def)
qed

theorem FillFrom_spec_witness:
  "RowMatrix_inv sample_2x3
   \<and> int (length [10, 20, 30, 40, 50, 60 :: int]) = rows sample_2x3 * cols sample_2x3
   \<and> fst (FillFrom sample_2x3 [10, 20, 30, 40, 50, 60]) = None
   \<and> GetElement (snd (FillFrom sample_2x3 [10, 20, 30, 40, 50, 60])) 1 2 = Inr 60
   \<and> int (length [7, 8 :: int]) \<noteq> rows sample_2x3 * cols sample_2x3
   \<and> FillFrom sample_2x3 [7, 8] = (Some OUT_OF_RANGE, sample_2x3)"
proof -
  let ?seq = "[10, 20, 30, 40, 50, 60 :: int]"
  have len: "int (length ?seq) = rows sample_2x3 * cols sample_2x3"
    by (simp add: sample_2x3_def)
  have short: "int (length [7, 8 :: int]) \<noteq> rows sample_2x3 * cols sample_2x3"
    by (simp add: sample_2x3_def)
  have ok: "fst (FillFrom sample_2x3 ?seq) = None"
    and cell: "GetElement (snd (FillFrom sample_2x3 ?seq)) 1 2 = Inr (?seq ! nat (1 * cols sample_2x3 + 2))"
    using FillFrom_spec [OF sample_2x3_inv, of ?seq] len
    by (simp_all add: sample_2x3_def)
  have bad: "FillFrom sample_2x3 [7, 8] = (Some OUT_OF_RANGE, sample_2x3)"
    using FillFrom_spec [OF sample_2x3_inv, of "[7, 8]"] short by blast
  have "?seq ! nat (1 * cols sample_2x3 + 2) = 60"
    by (simp add: sample_2x3_def)
  then show ?thesis using sample_2x3_inv len short ok cell bad by simp
qed

subsection \<open>The loops of \<open>Add\<close>\<close>

lemma Add_cols_buffer:
  assumes "RowMatrix_inv A" "RowMatrix_inv B" "RowMatrix_inv R"
    and "rows B = rows A" "cols B = cols A" "rows R = rows A" "cols R = cols A"
    and "0 \<le> i" "i < rows A" "0 \<le> j"
  shows "Add_cols A B (cols A) i R j =
         Inr (R\<lparr>linear := overwrite (\<lambda>p. linear A ! p + linear B ! p)
                               (nat (i * cols A + j)) (nat (i * cols A + cols A)) (linear R)\<rparr>)"
  using assms
proof (induction A B "cols A" i R j rule: Add_cols.induct)
  case (1 A B i R j)
  let ?f = "\<lambda>p. linear A ! p + linear B ! p"
  let ?lo = "nat (i * cols A + j)" and ?hi = "nat (i * cols A + cols A)"
  have c: "0 < cols A" using "1.prems"(1) by (simp add: RowMatrix_inv_def)
  show ?case
  proof (cases "j < cols A")
    case True
    let ?R1 = "R\<lparr>linear := (linear R)[?lo := ?f ?lo]\<rparr>"
    have getA: "GetElement A i j = Inr (linear A ! ?lo)"
      using "1.prems" True by (intro GetElement_inv)
    have getB: "GetElement B i j = Inr (linear B ! ?lo)"
      using GetElement_inv [of B i j] "1.prems" True by simp
    have set: "SetElement R i j (?f ?lo) = (None, ?R1)"
      using SetElement_inv [of R i j "?f ?lo"] "1.prems" True by simp
    have unfold: "Add_cols A B (cols A) i R j = Add_cols A B (cols A) i ?R1 (j + 1)"
      using True getA getB set by (simp add: Add_cols.simps [of A B "cols A" i R j])
    have inv1: "RowMatrix_inv ?R1"
      using "1.prems"(3) by (simp add: inv_linear_update)
    have "Add_cols A B (cols A) i ?R1 (j + 1) =
          Inr (?R1\<lparr>linear := overwrite ?f (nat (i * cols A + (j + 1))) ?hi (linear ?R1)\<rparr>)"
      using "1.hyps" [OF True getA getB set [symmetric] refl] inv1 "1.prems" by simp
    also have "\<dots> = Inr (R\<lparr>linear := overwrite ?f (Suc ?lo) ?hi ((linear R)[?lo := ?f ?lo])\<rparr>)"
      using "1.prems" c by (simp add: nat_cell_Suc)
    also have "overwrite ?f (Suc ?lo) ?hi ((linear R)[?lo := ?f ?lo]) = overwrite ?f ?lo ?hi (linear R)"
    proof (rule overwrite_step)
      have "0 \<le> i * cols A + j" using "1.prems" c by simp
      moreover have "i * cols A + j < i * cols A + cols A" using True by simp
      ultimately show "?lo < ?hi" by linarith
      show "?lo < length (linear R)"
        using inv_cell_in_buffer [of R i j] "1.prems" True by simp
    qed
    finally show ?thesis using unfold by simp
  next
    case False
    then have "Add_cols A B (cols A) i R j = Inr R"
      by (simp add: Add_cols.simps [of A B "cols A" i R j])
    moreover have "overwrite ?f ?lo ?hi (linear R) = linear R"
      using False by (intro overwrite_none) simp
    ultimately show ?thesis by simp
  qed
qed


lemma Add_rows_buffer:
  assumes "RowMatrix_inv A" "RowMatrix_inv B" "RowMatrix_inv R"
    and "rows B = rows A" "cols B = cols A" "rows R = rows A" "cols R = cols A"
    and "0 \<le> i"
  shows "Add_rows A B (rows A) (cols A) R i =
         Inr (R\<lparr>linear := overwrite (\<lambda>p. linear A ! p + linear B ! p)
                               (nat (i * cols A)) (nat (rows A * cols A)) (linear R)\<rparr>)"
  using assms
proof (induction A B "rows A" "cols A" R i rule: Add_rows.induct)
  case (1 A B R i)
  let ?f = "\<lambda>p. linear A ! p + linear B ! p"
  let ?end = "nat (rows A * cols A)"
  have c: "0 < cols A" using "1.prems"(1) by (simp add: RowMatrix_inv_def)
  show ?case
  proof (cases "i < rows A")
    case True
    let ?mid = "nat ((i + 1) * cols A)"
    let ?R1 = "R\<lparr>linear := overwrite ?f (nat (i * cols A)) ?mid (linear R)\<rparr>"
    have row: "Add_cols A B (cols A) i R 0 = Inr ?R1"
      using Add_cols_buffer [of A B R i 0] "1.prems" True by (simp add: algebra_simps)
    have unfold: "Add_rows A B (rows A) (cols A) R i = Add_rows A B (rows A) (cols A) ?R1 (i + 1)"
      using True row by (simp add: Add_rows.simps [of A B "rows A" "cols A" R i])
    have inv1: "RowMatrix_inv ?R1"
      using "1.prems"(3) by (simp add: inv_linear_update)
    have "Add_rows A B (rows A) (cols A) ?R1 (i + 1) =
          Inr (?R1\<lparr>linear := overwrite ?f (nat ((i + 1) * cols A)) ?end (linear ?R1)\<rparr>)"
      using "1.hyps" [OF True row] inv1 "1.prems" by simp
    also have "\<dots> = Inr (R\<lparr>linear := overwrite ?f ?mid ?end
                                       (overwrite ?f (nat (i * cols A)) ?mid (linear R))\<rparr>)"
      by simp
    also have "overwrite ?f ?mid ?end (overwrite ?f (nat (i * cols A)) ?mid (linear R))
             = overwrite ?f (nat (i * cols A)) ?end (linear R)"
    proof (rule overwrite_join)
      show "nat (i * cols A) \<le> ?mid" using c "1.prems" by (simp add: algebra_simps)
      have "(i + 1) * cols A \<le> rows A * cols A" using True c by (intro mult_right_mono) auto
      then show "?mid \<le> ?end" by simp
    qed
    finally show ?thesis using unfold by simp
  next
    case False
    then have "Add_rows A B (rows A) (cols A) R i = Inr R"
      by (simp add: Add_rows.simps [of A B "rows A" "cols A" R i])
    moreover have "rows A * cols A \<le> i * cols A" using False c by (intro mult_right_mono) auto
    then have "overwrite ?f (nat (i * cols A)) ?end (linear R) = linear R"
      by (intro overwrite_none) simp
    ultimately show ?thesis by simp
  qed
qed

lemma Add_present:
  fixes A B :: "'a::plus RowMatrix"
  assumes "RowMatrix_inv A" "RowMatrix_inv B" "rows B = rows A" "cols B = cols A"
    and "rows A * cols A \<le> INT_MAX"
  shows "Add mem (Some A) (Some B) =
         Inr (Some \<lparr>rows = rows A, cols = cols A,
                    linear = map (\<lambda>p. linear A ! p + linear B ! p) [0..<nat (rows A * cols A)],
                    data = data A\<rparr>)"
proof -
  let ?f = "\<lambda>p. linear A ! p + linear B ! p"
  have pos: "0 < rows A" "0 < cols A"
    using assms(1) by (simp_all add: RowMatrix_inv_def)
  obtain R where ctor: "RowMatrix_ctor mem (rows A) (cols A) = Inr R"
    and R: "RowMatrix_inv R" "rows R = rows A" "cols R = cols A"
    using RowMatrix_ctor_inv [OF pos assms(5), of mem] by blast
  have lenR: "length (linear R) = nat (rows A * cols A)"
    using R by (simp add: RowMatrix_inv_def)
  have dataR: "data R = data A"
    using R assms(1) by (simp add: RowMatrix_inv_def)
  have "Add_rows A B (rows A) (cols A) R 0 =
        Inr (R\<lparr>linear := overwrite ?f 0 (nat (rows A * cols A)) (linear R)\<rparr>)"
    using Add_rows_buffer [of A B R 0] assms R by simp
  also have "overwrite ?f 0 (nat (rows A * cols A)) (linear R) = map ?f [0..<length (linear R)]"
    using lenR by (intro overwrite_all) simp
  finally have loops: "Add_rows A B (rows A) (cols A) R 0 =
      Inr (R\<lparr>linear := map ?f [0..<nat (rows A * cols A)]\<rparr>)"
    using lenR by simp
  have "R\<lparr>linear := map ?f [0..<nat (rows A * cols A)]\<rparr> =
        \<lparr>rows = rows A, cols = cols A, linear = map ?f [0..<nat (rows A * cols A)], data = data A\<rparr>"
    using R dataR by simp
  then show ?thesis
    using assms(3,4) ctor loops by (simp add: Add_def GetRowCount_def GetColumnCount_def Let_def)
qed

lemma Add_absent:
  "Add mem None Y = Inr None"
  "Add mem X None = Inr None"
  "rows A \<noteq> rows B \<or> cols A \<noteq> cols B \<Longrightarrow> Add mem (Some A) (Some B) = Inr None"
  by (auto simp add: Add_def GetRowCount_def GetColumnCount_def Let_def split: option.splits)

subsection \<open>\<open>Add\<close>\<close>

text \<open>
  Claim C8. For operands \<open>A\<close> and \<open>B\<close> that satisfy the class invariant and have the
  same shape, with a cell count that is an \<open>int\<close> (as it is for every matrix the
  constructor built), \<open>Add(A, B)\<close> returns a matrix \<open>R\<close> of that shape, itself
  satisfying the invariant, with \<open>R[i][j] = A[i][j] + B[i][j]\<close> at every valid
  \<open>(i, j)\<close>, and for a commutative \<open>+\<close> \<open>Add(B, A)\<close> returns the same matrix; when the
  shapes differ or an operand is \<open>nullptr\<close>, \<open>Add\<close> returns \<open>nullptr\<close>.
\<close>

theorem Add_spec:
  fixes A B :: "'a::ab_semigroup_add RowMatrix"
  shows "(RowMatrix_inv A \<and> RowMatrix_inv B \<and> rows A = rows B \<and> cols A = cols B \<and>
          rows A * cols A \<le> INT_MAX \<longrightarrow>
            (\<exists>R. Add mem (Some A) (Some B) = Inr (Some R) \<and>
                 RowMatrix_inv R \<and> rows R = rows A \<and> cols R = cols A \<and>
                 (\<forall>i j. 0 \<le> i \<and> i < rows A \<and> 0 \<le> j \<and> j < cols A \<longrightarrow>
                    (\<exists>a b. GetElement A i j = Inr a \<and> GetElement B i j = Inr b \<and>
                           GetElement R i j = Inr (a + b))) \<and>
                 Add mem' (Some B) (Some A) = Inr (Some R)))
       \<and> (rows A \<noteq> rows B \<or> cols A \<noteq> cols B \<longrightarrow> Add mem (Some A) (Some B) = Inr None)
       \<and> Add mem None Y = Inr None
       \<and> Add mem X None = Inr None"
proof (intro conjI impI)
  assume h: "RowMatrix_inv A \<and> RowMatrix_inv B \<and> rows A = rows B \<and> cols A = cols B \<and>
          rows A * cols A \<le> INT_MAX"
  let ?n = "nat (rows A * cols A)"
  let ?R = "\<lparr>rows = rows A, cols = cols A,
             linear = map (\<lambda>p. linear A ! p + linear B ! p) [0..<?n], data = data A\<rparr>"
  from h have facts: "RowMatrix_inv A" "RowMatrix_inv B" "rows B = rows A" "cols B = cols A"
      "rows A * cols A \<le> INT_MAX"
    by auto
  have ab: "Add mem (Some A) (Some B) = Inr (Some ?R)"
    using facts by (rule Add_present)
  have "Add mem' (Some B) (Some A) =
        Inr (Some \<lparr>rows = rows B, cols = cols B,
                   linear = map (\<lambda>p. linear B ! p + linear A ! p) [0..<nat (rows B * cols B)],
                   data = data B\<rparr>)"
  proof (rule Add_present)
    show "RowMatrix_inv B" "RowMatrix_inv A" "rows A = rows B" "cols A = cols B"
      using facts by simp_all
    show "rows B * cols B \<le> INT_MAX"
      using facts(3-5) by simp
  qed
  moreover have "data B = data A"
    using h by (simp add: RowMatrix_inv_def)
  ultimately have ba: "Add mem' (Some B) (Some A) = Inr (Some ?R)"
    using h by (simp add: add.commute)
  have invR: "RowMatrix_inv ?R"
    using h by (simp add: RowMatrix_inv_def)
  have cells: "\<exists>a b. GetElement A i j = Inr a \<and> GetElement B i j = Inr b \<and>
                      GetElement ?R i j = Inr (a + b)"
    if ij: "0 \<le> i \<and> i < rows A \<and> 0 \<le> j \<and> j < cols A" for i j
  proof -
    let ?p = "nat (i * cols A + j)"
    have "?p < length (linear A)"
      using h ij by (intro inv_cell_in_buffer) simp_all
    then have p: "?p < ?n" using h by (simp add: RowMatrix_inv_def)
    have "GetElement A i j = Inr (linear A ! ?p)"
      using h ij by (intro GetElement_inv) simp_all
    moreover have "GetElement B i j = Inr (linear B ! ?p)"
      using GetElement_inv [of B i j] h ij by simp
    moreover have "GetElement ?R i j = Inr (linear ?R ! nat (i * cols ?R + j))"
      using invR ij by (intro GetElement_inv) simp_all
    then have "GetElement ?R i j = Inr (linear A ! ?p + linear B ! ?p)"
      using p by simp
    ultimately show ?thesis by simp
  qed
  show "\<exists>R. Add mem (Some A) (Some B) = Inr (Some R) \<and>
            RowMatrix_inv R \<and> rows R = rows A \<and> cols R = cols A \<and>
            (\<forall>i j. 0 \<le> i \<and> i < rows A \<and> 0 \<le> j \<and> j < cols A \<longrightarrow>
               (\<exists>a b. GetElement A i j = Inr a \<and> GetElement B i j = Inr b \<and>
                      GetElement R i j = Inr (a + b))) \<and>
            Add mem' (Some B) (Some A) = Inr (Some R)"
  proof (intro exI [of _ ?R] conjI allI impI)
    show "Add mem (Some A) (Some B) = Inr (Some ?R)" by (rule ab)
    show "RowMatrix_inv ?R" by (rule invR)
    show "rows ?R = rows A" by simp
    show "cols ?R = cols A" by simp
    show "Add mem' (Some B) (Some A) = Inr (Some ?R)" by (rule ba)
  next
    fix i j assume "0 \<le> i \<and> i < rows A \<and> 0 \<le> j \<and> j < cols A"
    then show "\<exists>a b. GetElement A i j = Inr a \<and> GetElement B i j = Inr b \<and>
                     GetElement ?R i j = Inr (a + b)"
      by (rule cells)
  qed
next
  assume "rows A \<noteq> rows B \<or> cols A \<noteq> cols B"
  then show "Add mem (Some A) (Some B) = Inr None" by (rule Add_absent(3))
next
  show "Add mem None Y = Inr None" by (rule Add_absent(1))
  show "Add mem X None = Inr None" by (rule Add_absent(2))
qed

theorem Add_spec_witness:
  "RowMatrix_inv sample_2x3 \<and> RowMatrix_inv other_2x3
   \<and> rows sample_2x3 = rows other_2x3 \<and> cols sample_2x3 = cols other_2x3
   \<and> rows sample_2x3 * cols sample_2x3 \<le> INT_MAX
   \<and> (\<exists>R. Add (\<lambda>_. 0) (Some sample_2x3) (Some other_2x3) = Inr (Some R)
          \<and> rows R = 2 \<and> cols R = 3
          \<and> GetElement R 1 2 = Inr 66
          \<and> Add (\<lambda>_. 0) (Some other_2x3) (Some sample_2x3) = Inr (Some R))
   \<and> rows sample_2x3 \<noteq> rows sample_3x2
   \<and> Add (\<lambda>_. 0) (Some sample_2x3) (Some sample_3x2) = Inr None"
proof -
  have shape: "rows sample_2x3 = rows other_2x3 \<and> cols sample_2x3 = cols other_2x3"
    by (simp add: sample_2x3_def other_2x3_def)
  have fits: "rows sample_2x3 * cols sample_2x3 \<le> INT_MAX"
    by (simp add: sample_2x3_def INT_MAX_def)
  have differ: "rows sample_2x3 \<noteq> rows sample_3x2"
    by (simp add: sample_2x3_def sample_3x2_def)
  have in_range: "(0::int) \<le> 1 \<and> 1 < rows sample_2x3 \<and> (0::int) \<le> 2 \<and> 2 < cols sample_2x3"
    by (simp add: sample_2x3_def)
  obtain R where R: "Add (\<lambda>_. 0) (Some sample_2x3) (Some other_2x3) = Inr (Some R)"
      "rows R = rows sample_2x3" "cols R = cols sample_2x3"
      "\<forall>i j. 0 \<le> i \<and> i < rows sample_2x3 \<and> 0 \<le> j \<and> j < cols sample_2x3 \<longrightarrow>
         (\<exists>a b. GetElement sample_2x3 i j = Inr a \<and> GetElement other_2x3 i j = Inr b \<and>
                GetElement R i j = Inr (a + b))"
      "Add (\<lambda>_. 0) (Some other_2x3) (Some sample_2x3) = Inr (Some R)"
    using Add_spec [of sample_2x3 other_2x3 "\<lambda>_. 0" "\<lambda>_. 0"] sample_2x3_inv other_2x3_inv shape fits
    by blast
  from R(4) in_range obtain a b where
    "GetElement sample_2x3 1 2 = Inr a" "GetElement other_2x3 1 2 = Inr b"
    "GetElement R 1 2 = Inr (a + b)"
    by blast
  moreover have "GetElement sample_2x3 1 2 = Inr 6" "GetElement other_2x3 1 2 = Inr 60"
    by (simp_all add: GetElement_def sample_2x3_def other_2x3_def)
  ultimately have cell: "GetElement R 1 2 = Inr 66" by simp
  have absent: "Add (\<lambda>_. 0) (Some sample_2x3) (Some sample_3x2) = Inr None"
    using Add_spec [of sample_2x3 sample_3x2 "\<lambda>_. 0"] differ by blast
  have "rows R = 2" "cols R = 3" using R(2,3) by (simp_all add: sample_2x3_def)
  then show ?thesis
    using sample_2x3_inv other_2x3_inv shape fits differ R(1,5) cell absent by blast
qed

subsection \<open>The loops of \<open>Multiply\<close>\<close>

lemma Multiply_inner_fold:
  assumes "RowMatrix_inv A" "RowMatrix_inv B" "rows B = cols A"
    and "0 \<le> i" "i < rows A" "0 \<le> j" "j < cols B" "0 \<le> k"
  shows "Multiply_inner A B (cols A) i j tmp k =
         Inr (foldl (\<lambda>acc q. acc + linear A ! nat (i * cols A + int q) * linear B ! nat (int q * cols B + j))
                tmp [nat k..<nat (cols A)])"
  using assms
proof (induction A B "cols A" i j tmp k rule: Multiply_inner.induct)
  case (1 A B i j tmp k)
  let ?step = "\<lambda>acc q. acc + linear A ! nat (i * cols A + int q) * linear B ! nat (int q * cols B + j)"
  show ?case
  proof (cases "k < cols A")
    case True
    have getA: "GetElement A i k = Inr (linear A ! nat (i * cols A + k))"
      using "1.prems" True by (intro GetElement_inv)
    have getB: "GetElement B k j = Inr (linear B ! nat (k * cols B + j))"
      using "1.prems" True by (intro GetElement_inv) simp_all
    have unfold: "Multiply_inner A B (cols A) i j tmp k =
        Multiply_inner A B (cols A) i j
          (tmp + linear A ! nat (i * cols A + k) * linear B ! nat (k * cols B + j)) (k + 1)"
      using True getA getB by (simp add: Multiply_inner.simps [of A B "cols A" i j tmp k])
    have k: "int (nat k) = k" "nat (k + 1) = Suc (nat k)" "nat k < nat (cols A)"
      using "1.prems" True by simp_all
    have "Multiply_inner A B (cols A) i j (?step tmp (nat k)) (k + 1) =
          Inr (foldl ?step (?step tmp (nat k)) [nat (k + 1)..<nat (cols A)])"
      using "1.hyps" [OF True getA getB] "1.prems" k(1) by simp
    also have "\<dots> = Inr (foldl ?step tmp [nat k..<nat (cols A)])"
      using k by (simp add: upt_conv_Cons)
    finally show ?thesis using unfold k(1) by simp
  next
    case False
    then have "Multiply_inner A B (cols A) i j tmp k = Inr tmp"
      by (simp add: Multiply_inner.simps [of A B "cols A" i j tmp k])
    moreover have "nat (cols A) \<le> nat k" using False by simp
    then have "[nat k..<nat (cols A)] = []" by simp
    ultimately show ?thesis by (simp only: foldl_Nil)
  qed
qed

lemma Multiply_inner_entry:
  assumes "RowMatrix_inv A" "RowMatrix_inv B" "rows B = cols A"
    and "0 \<le> i" "i < rows A" "0 \<le> j" "j < cols B"
  shows "Multiply_inner A B (cols A) i j 0 0 = Inr (product_entry A B i j)"
  using Multiply_inner_fold [OF assms, of 0 0] by (simp add: product_entry_def)

lemma product_cell_at:
  assumes "0 \<le> i" "0 \<le> j" "j < cols B"
  shows "product_cell A B (nat (i * cols B + j)) = product_entry A B i j"
proof -
  have "0 \<le> i * cols B + j" using assms by simp
  then have "int (nat (i * cols B + j)) = i * cols B + j" by simp
  moreover have "(i * cols B + j) div cols B = i" "(i * cols B + j) mod cols B = j"
    using assms by (simp_all add: div_pos_pos_trivial)
  ultimately show ?thesis by (simp add: product_cell_def)
qed

lemma Multiply_cols_buffer:
  assumes "RowMatrix_inv A" "RowMatrix_inv B" "RowMatrix_inv R"
    and "rows B = cols A" "rows R = rows A" "cols R = cols B"
    and "0 \<le> i" "i < rows A" "0 \<le> j"
  shows "Multiply_cols A B (cols A) (cols B) i R j =
         Inr (R\<lparr>linear := overwrite (product_cell A B)
                               (nat (i * cols B + j)) (nat (i * cols B + cols B)) (linear R)\<rparr>)"
  using assms
proof (induction A B "cols A" "cols B" i R j rule: Multiply_cols.induct)
  case (1 A B i R j)
  let ?f = "product_cell A B"
  let ?lo = "nat (i * cols B + j)" and ?hi = "nat (i * cols B + cols B)"
  have c: "0 < cols B" using "1.prems"(2) by (simp add: RowMatrix_inv_def)
  show ?case
  proof (cases "j < cols B")
    case True
    let ?R1 = "R\<lparr>linear := (linear R)[?lo := ?f ?lo]\<rparr>"
    have cell: "?f ?lo = product_entry A B i j"
      using "1.prems" True by (intro product_cell_at)
    have inner: "Multiply_inner A B (cols A) i j 0 0 = Inr (?f ?lo)"
      using "1.prems" True cell by (simp add: Multiply_inner_entry)
    have set: "SetElement R i j (?f ?lo) = (None, ?R1)"
      using SetElement_inv [of R i j "?f ?lo"] "1.prems" True by simp
    have unfold: "Multiply_cols A B (cols A) (cols B) i R j =
        Multiply_cols A B (cols A) (cols B) i ?R1 (j + 1)"
      using True inner set by (simp add: Multiply_cols.simps [of A B "cols A" "cols B" i R j])
    have inv1: "RowMatrix_inv ?R1"
      using "1.prems"(3) by (simp add: inv_linear_update)
    have "Multiply_cols A B (cols A) (cols B) i ?R1 (j + 1) =
          Inr (?R1\<lparr>linear := overwrite ?f (nat (i * cols B + (j + 1))) ?hi (linear ?R1)\<rparr>)"
      using "1.hyps" [OF True inner set [symmetric] refl] inv1 "1.prems" by simp
    also have "\<dots> = Inr (R\<lparr>linear := overwrite ?f (Suc ?lo) ?hi ((linear R)[?lo := ?f ?lo])\<rparr>)"
      using "1.prems" c by (simp add: nat_cell_Suc)
    also have "overwrite ?f (Suc ?lo) ?hi ((linear R)[?lo := ?f ?lo]) = overwrite ?f ?lo ?hi (linear R)"
    proof (rule overwrite_step)
      have "0 \<le> i * cols B + j" using "1.prems" c by simp
      moreover have "i * cols B + j < i * cols B + cols B" using True by simp
      ultimately show "?lo < ?hi" by linarith
      show "?lo < length (linear R)"
        using inv_cell_in_buffer [of R i j] "1.prems" True by simp
    qed
    finally show ?thesis using unfold by simp
  next
    case False
    then have "Multiply_cols A B (cols A) (cols B) i R j = Inr R"
      by (simp add: Multiply_cols.simps [of A B "cols A" "cols B" i R j])
    moreover have "overwrite ?f ?lo ?hi (linear R) = linear R"
      using False by (intro overwrite_none) simp
    ultimately show ?thesis by simp
  qed
qed

lemma Multiply_rows_buffer:
  assumes "RowMatrix_inv A" "RowMatrix_inv B" "RowMatrix_inv R"
    and "rows B = cols A" "rows R = rows A" "cols R = cols B"
    and "0 \<le> i"
  shows "Multiply_rows A B (rows A) (cols A) (cols B) R i =
         Inr (R\<lparr>linear := overwrite (product_cell A B)
                               (nat (i * cols B)) (nat (rows A * cols B)) (linear R)\<rparr>)"
  using assms
proof (induction A B "rows A" "cols A" "cols B" R i rule: Multiply_rows.induct)
  case (1 A B R i)
  let ?f = "product_cell A B"
  let ?end = "nat (rows A * cols B)"
  have c: "0 < cols B" using "1.prems"(2) by (simp add: RowMatrix_inv_def)
  show ?case
  proof (cases "i < rows A")
    case True
    let ?mid = "nat ((i + 1) * cols B)"
    let ?R1 = "R\<lparr>linear := overwrite ?f (nat (i * cols B)) ?mid (linear R)\<rparr>"
    have row: "Multiply_cols A B (cols A) (cols B) i R 0 = Inr ?R1"
      using Multiply_cols_buffer [of A B R i 0] "1.prems" True by (simp add: algebra_simps)
    have unfold: "Multiply_rows A B (rows A) (cols A) (cols B) R i =
        Multiply_rows A B (rows A) (cols A) (cols B) ?R1 (i + 1)"
      using True row by (simp add: Multiply_rows.simps [of A B "rows A" "cols A" "cols B" R i])
    have inv1: "RowMatrix_inv ?R1"
      using "1.prems"(3) by (simp add: inv_linear_update)
    have "Multiply_rows A B (rows A) (cols A) (cols B) ?R1 (i + 1) =
          Inr (?R1\<lparr>linear := overwrite ?f (nat ((i + 1) * cols B)) ?end (linear ?R1)\<rparr>)"
      using "1.hyps" [OF True row] inv1 "1.prems" by simp
    also have "\<dots> = Inr (R\<lparr>linear := overwrite ?f ?mid ?end
                                       (overwrite ?f (nat (i * cols B)) ?mid (linear R))\<rparr>)"
      by simp
    also have "overwrite ?f ?mid ?end (overwrite ?f (nat (i * cols B)) ?mid (linear R))
             = overwrite ?f (nat (i * cols B)) ?end (linear R)"
    proof (rule overwrite_join)
      show "nat (i * cols B) \<le> ?mid" using c "1.prems" by (simp add: algebra_simps)
      have "(i + 1) * cols B \<le> rows A * cols B" using True c by (intro mult_right_mono) auto
      then show "?mid \<le> ?end" by simp
    qed
    finally show ?thesis using unfold by simp
  next
    case False
    then have "Multiply_rows A B (rows A) (cols A) (cols B) R i = Inr R"
      by (simp add: Multiply_rows.simps [of A B "rows A" "cols A" "cols B" R i])
    moreover have "rows A * cols B \<le> i * cols B" using False c by (intro mult_right_mono) auto
    then have "overwrite ?f (nat (i * cols B)) ?end (linear R) = linear R"
      by (intro overwrite_none) simp
    ultimately show ?thesis by simp
  qed
qed

text \<open>
  When the cell count of the result is an \<open>int\<close>, the matrix that the loops of
  \<open>Multiply\<close> leave in \<open>result\<close> is the product; the \<open>return\<close> that follows them
  drops it.
\<close>

lemma Multiply_loops_product:
  assumes "RowMatrix_inv A" "RowMatrix_inv B" "rows B = cols A" "rows A * cols B \<le> INT_MAX"
  shows "\<exists>R. RowMatrix_ctor mem (rows A) (cols B) = Inr R \<and>
             Multiply_rows A B (rows A) (cols A) (cols B) R 0 =
             Inr \<lparr>rows = rows A, cols = cols B,
                  linear = map (product_cell A B) [0..<nat (rows A * cols B)],
                  data = map (\<lambda>k. int k * cols B) [0..<nat (rows A)]\<rparr>"
proof -
  have pos: "0 < rows A" "0 < cols B"
    using assms(1,2) by (simp_all add: RowMatrix_inv_def)
  obtain R where ctor: "RowMatrix_ctor mem (rows A) (cols B) = Inr R"
    and R: "RowMatrix_inv R" "rows R = rows A" "cols R = cols B"
    using RowMatrix_ctor_inv [OF pos assms(4), of mem] by blast
  have lenR: "length (linear R) = nat (rows A * cols B)"
    using R by (simp add: RowMatrix_inv_def)
  have dataR: "data R = map (\<lambda>k. int k * cols B) [0..<nat (rows A)]"
    using R by (simp add: RowMatrix_inv_def)
  have "Multiply_rows A B (rows A) (cols A) (cols B) R 0 =
        Inr (R\<lparr>linear := overwrite (product_cell A B) 0 (nat (rows A * cols B)) (linear R)\<rparr>)"
    using Multiply_rows_buffer [of A B R 0] assms(1-3) R by simp
  also have "overwrite (product_cell A B) 0 (nat (rows A * cols B)) (linear R)
           = map (product_cell A B) [0..<length (linear R)]"
    using lenR by (intro overwrite_all) simp
  also have "R\<lparr>linear := map (product_cell A B) [0..<length (linear R)]\<rparr> =
      \<lparr>rows = rows A, cols = cols B,
       linear = map (product_cell A B) [0..<nat (rows A * cols B)],
       data = map (\<lambda>k. int k * cols B) [0..<nat (rows A)]\<rparr>"
    using R(2,3) lenR dataR by simp
  finally show ?thesis using ctor by blast
qed

lemma Multiply_present:
  assumes "RowMatrix_inv A" "RowMatrix_inv B" "cols A = rows B" "rows A * cols B \<le> INT_MAX"
  shows "Multiply mem (Some A) (Some B) =
         Inr \<lparr>returned = None,
              local_result =
                Some \<lparr>rows = rows A, cols = cols B,
                      linear = map (product_cell A B) [0..<nat (rows A * cols B)],
                      data = map (\<lambda>k. int k * cols B) [0..<nat (rows A)]\<rparr>\<rparr>"
proof -
  obtain R where "RowMatrix_ctor mem (rows A) (cols B) = Inr R"
    and "Multiply_rows A B (rows A) (cols A) (cols B) R 0 =
         Inr \<lparr>rows = rows A, cols = cols B,
              linear = map (product_cell A B) [0..<nat (rows A * cols B)],
              data = map (\<lambda>k. int k * cols B) [0..<nat (rows A)]\<rparr>"
    using Multiply_loops_product [OF assms(1,2) assms(3) [symmetric] assms(4), of mem] by blast
  then show ?thesis
    using assms(3) by (simp add: Multiply_def GetRowCount_def GetColumnCount_def Let_def)
qed

lemma Multiply_early:
  "Multiply mem None Y = Inr \<lparr>returned = None, local_result = None\<rparr>"
  "Multiply mem X None = Inr \<lparr>returned = None, local_result = None\<rparr>"
  "cols A \<noteq> rows B \<Longrightarrow>
     Multiply mem (Some A) (Some B) = Inr \<lparr>returned = None, local_result = None\<rparr>"
  by (simp_all add: Multiply_def GetRowCount_def GetColumnCount_def Let_def split: option.splits)

text \<open>When the \<open>int\<close> cell count of the result is negative, \<open>Multiply\<close> ends in the exception of \<open>new\<close>.\<close>

lemma Multiply_throws:
  assumes "0 < rows A" "0 < cols B" "cols A = rows B" "int_wrap (rows A * cols B) < 0"
  shows "Multiply mem (Some A) (Some B) = Inl BAD_ARRAY_NEW_LENGTH"
  using assms RowMatrix_ctor_throws [of "rows A" "cols B" mem]
  by (simp add: Multiply_def GetRowCount_def GetColumnCount_def Let_def)

subsection \<open>The invariant is the set of matrices that can be built\<close>

lemma SetElement_keeps_inv:
  "RowMatrix_inv M \<Longrightarrow> RowMatrix_inv (snd (SetElement M i j v))"
  by (simp add: SetElement_def RowMatrix_inv_def)

lemma FillFrom_keeps_inv:
  assumes "RowMatrix_inv M"
  shows "RowMatrix_inv (snd (FillFrom M source))"
proof (cases "int (length source) = rows M * cols M")
  case True
  then have "FillFrom M source = (None, M\<lparr>linear := source\<rparr>)"
    using assms by (intro FillFrom_exact)
  moreover have "length source = length (linear M)"
    using assms True by (simp add: RowMatrix_inv_def)
  ultimately show ?thesis using assms by (simp add: inv_linear_update)
next
  case False
  then show ?thesis using assms by (simp add: FillFrom_def)
qed

text \<open>
  Every matrix that satisfies the invariant and whose cell count is an \<open>int\<close> is what
  the constructor followed by \<open>FillFrom\<close> produces, whatever the fresh storage held.
\<close>

lemma inv_is_built:
  assumes "RowMatrix_inv M" "rows M * cols M \<le> INT_MAX"
  shows "\<exists>M0. RowMatrix_ctor mem (rows M) (cols M) = Inr M0 \<and> FillFrom M0 (linear M) = (None, M)"
proof -
  have pos: "0 < rows M" "0 < cols M"
    using assms by (simp_all add: RowMatrix_inv_def)
  obtain M0 where ctor: "RowMatrix_ctor mem (rows M) (cols M) = Inr M0"
    and M0: "RowMatrix_inv M0" "rows M0 = rows M" "cols M0 = cols M"
    using RowMatrix_ctor_inv [OF pos assms(2), of mem] by blast
  have "int (length (linear M)) = rows M0 * cols M0"
    using assms M0 pos by (simp add: RowMatrix_inv_def)
  then have "FillFrom M0 (linear M) = (None, M0\<lparr>linear := linear M\<rparr>)"
    using M0(1) by (intro FillFrom_exact)
  moreover have "data M0 = data M"
    using assms M0 by (simp add: RowMatrix_inv_def)
  then have "M0\<lparr>linear := linear M\<rparr> = M"
    using M0 by simp
  ultimately show ?thesis using ctor by simp
qed

subsection \<open>The indices of the accessor calls\<close>

text \<open>
  The range test of an accessor reads \<open>rows\<close> and \<open>cols\<close> only. The lemmas of this
  subsection therefore ask nothing of the buffers: they hold of every operand and
  of every result matrix, also one whose construction wrapped.
\<close>

lemma GetElement_in_range:
  "0 \<le> i \<Longrightarrow> i < rows M \<Longrightarrow> 0 \<le> j \<Longrightarrow> j < cols M \<Longrightarrow> \<exists>v. GetElement M i j = Inr v"
  by (simp add: GetElement_def)

lemma SetElement_in_range:
  "0 \<le> i \<Longrightarrow> i < rows M \<Longrightarrow> 0 \<le> j \<Longrightarrow> j < cols M \<Longrightarrow>
   \<exists>M'. SetElement M i j v = (None, M') \<and> rows M' = rows M \<and> cols M' = cols M"
  by (simp add: SetElement_def)

lemma Add_cols_returns:
  assumes "colsA \<le> cols A" "colsA \<le> cols B" "colsA \<le> cols R"
    and "0 \<le> i" "i < rows A" "i < rows B" "i < rows R" "0 \<le> j"
  shows "\<exists>R'. Add_cols A B colsA i R j = Inr R' \<and> rows R' = rows R \<and> cols R' = cols R"
  using assms
proof (induction A B colsA i R j rule: Add_cols.induct)
  case (1 A B colsA i R j)
  show ?case
  proof (cases "j < colsA")
    case True
    obtain a where getA: "GetElement A i j = Inr a"
      using GetElement_in_range [of i A j] "1.prems" True by auto
    obtain b where getB: "GetElement B i j = Inr b"
      using GetElement_in_range [of i B j] "1.prems" True by auto
    obtain R1 where set: "SetElement R i j (a + b) = (None, R1)"
      and R1: "rows R1 = rows R" "cols R1 = cols R"
      using SetElement_in_range [of i R j "a + b"] "1.prems" True by auto
    have unfold: "Add_cols A B colsA i R j = Add_cols A B colsA i R1 (j + 1)"
      using True getA getB set by (simp add: Add_cols.simps [of A B colsA i R j])
    have "\<exists>R'. Add_cols A B colsA i R1 (j + 1) = Inr R' \<and> rows R' = rows R1 \<and> cols R' = cols R1"
      using "1.IH" [OF True getA getB set [symmetric] refl] "1.prems" R1 by simp
    then show ?thesis using unfold R1 by simp
  next
    case False
    then show ?thesis by (simp add: Add_cols.simps [of A B colsA i R j])
  qed
qed

lemma Add_rows_returns:
  assumes "colsA \<le> cols A" "colsA \<le> cols B" "colsA \<le> cols R"
    and "rowsA \<le> rows A" "rowsA \<le> rows B" "rowsA \<le> rows R" "0 \<le> i"
  shows "\<exists>R'. Add_rows A B rowsA colsA R i = Inr R' \<and> rows R' = rows R \<and> cols R' = cols R"
  using assms
proof (induction A B rowsA colsA R i rule: Add_rows.induct)
  case (1 A B rowsA colsA R i)
  show ?case
  proof (cases "i < rowsA")
    case True
    obtain R1 where row: "Add_cols A B colsA i R 0 = Inr R1"
      and R1: "rows R1 = rows R" "cols R1 = cols R"
      using Add_cols_returns [of colsA A B R i 0] "1.prems" True by auto
    have unfold: "Add_rows A B rowsA colsA R i = Add_rows A B rowsA colsA R1 (i + 1)"
      using True row by (simp add: Add_rows.simps [of A B rowsA colsA R i])
    have "\<exists>R'. Add_rows A B rowsA colsA R1 (i + 1) = Inr R' \<and> rows R' = rows R1 \<and> cols R' = cols R1"
      using "1.IH" [OF True row] "1.prems" R1 by simp
    then show ?thesis using unfold R1 by simp
  next
    case False
    then show ?thesis by (simp add: Add_rows.simps [of A B rowsA colsA R i])
  qed
qed

lemma Multiply_inner_returns:
  assumes "colsA \<le> cols A" "colsA \<le> rows B"
    and "0 \<le> i" "i < rows A" "0 \<le> j" "j < cols B" "0 \<le> k"
  shows "\<exists>t. Multiply_inner A B colsA i j tmp k = Inr t"
  using assms
proof (induction A B colsA i j tmp k rule: Multiply_inner.induct)
  case (1 A B colsA i j tmp k)
  show ?case
  proof (cases "k < colsA")
    case True
    obtain a where getA: "GetElement A i k = Inr a"
      using GetElement_in_range [of i A k] "1.prems" True by auto
    obtain b where getB: "GetElement B k j = Inr b"
      using GetElement_in_range [of k B j] "1.prems" True by auto
    have unfold: "Multiply_inner A B colsA i j tmp k = Multiply_inner A B colsA i j (tmp + a * b) (k + 1)"
      using True getA getB by (simp add: Multiply_inner.simps [of A B colsA i j tmp k])
    have "\<exists>t. Multiply_inner A B colsA i j (tmp + a * b) (k + 1) = Inr t"
      using "1.IH" [OF True getA getB] "1.prems" by simp
    then show ?thesis using unfold by simp
  next
    case False
    then show ?thesis by (simp add: Multiply_inner.simps [of A B colsA i j tmp k])
  qed
qed

lemma Multiply_cols_returns:
  assumes "colsA \<le> cols A" "colsA \<le> rows B" "colsB \<le> cols B" "colsB \<le> cols R"
    and "0 \<le> i" "i < rows A" "i < rows R" "0 \<le> j"
  shows "\<exists>R'. Multiply_cols A B colsA colsB i R j = Inr R' \<and> rows R' = rows R \<and> cols R' = cols R"
  using assms
proof (induction A B colsA colsB i R j rule: Multiply_cols.induct)
  case (1 A B colsA colsB i R j)
  show ?case
  proof (cases "j < colsB")
    case True
    obtain t where inner: "Multiply_inner A B colsA i j 0 0 = Inr t"
      using Multiply_inner_returns [of colsA A B i j 0 0] "1.prems" True by auto
    obtain R1 where set: "SetElement R i j t = (None, R1)"
      and R1: "rows R1 = rows R" "cols R1 = cols R"
      using SetElement_in_range [of i R j t] "1.prems" True by auto
    have unfold: "Multiply_cols A B colsA colsB i R j = Multiply_cols A B colsA colsB i R1 (j + 1)"
      using True inner set by (simp add: Multiply_cols.simps [of A B colsA colsB i R j])
    have "\<exists>R'. Multiply_cols A B colsA colsB i R1 (j + 1) = Inr R' \<and>
               rows R' = rows R1 \<and> cols R' = cols R1"
      using "1.IH" [OF True inner set [symmetric] refl] "1.prems" R1 by simp
    then show ?thesis using unfold R1 by simp
  next
    case False
    then show ?thesis by (simp add: Multiply_cols.simps [of A B colsA colsB i R j])
  qed
qed

lemma Multiply_rows_returns:
  assumes "colsA \<le> cols A" "colsA \<le> rows B" "colsB \<le> cols B" "colsB \<le> cols R"
    and "rowsA \<le> rows A" "rowsA \<le> rows R" "0 \<le> i"
  shows "\<exists>R'. Multiply_rows A B rowsA colsA colsB R i = Inr R' \<and>
              rows R' = rows R \<and> cols R' = cols R"
  using assms
proof (induction A B rowsA colsA colsB R i rule: Multiply_rows.induct)
  case (1 A B rowsA colsA colsB R i)
  show ?case
  proof (cases "i < rowsA")
    case True
    obtain R1 where row: "Multiply_cols A B colsA colsB i R 0 = Inr R1"
      and R1: "rows R1 = rows R" "cols R1 = cols R"
      using Multiply_cols_returns [of colsA A B colsB R i 0] "1.prems" True by auto
    have unfold: "Multiply_rows A B rowsA colsA colsB R i = Multiply_rows A B rowsA colsA colsB R1 (i + 1)"
      using True row by (simp add: Multiply_rows.simps [of A B rowsA colsA colsB R i])
    have "\<exists>R'. Multiply_rows A B rowsA colsA colsB R1 (i + 1) = Inr R' \<and>
               rows R' = rows R1 \<and> cols R' = cols R1"
      using "1.IH" [OF True row] "1.prems" R1 by simp
    then show ?thesis using unfold R1 by simp
  next
    case False
    then show ?thesis by (simp add: Multiply_rows.simps [of A B rowsA colsA colsB R i])
  qed
qed

text \<open>
  Whatever the operands, \<open>Add\<close> and \<open>Multiply\<close> do not end in the out-of-range
  exception: they return, or the constructor of the result fails.
\<close>

lemma Add_not_out_of_range:
  "Add mem A B \<noteq> Inl OUT_OF_RANGE"
proof (cases A)
  case None
  then show ?thesis by (simp add: Add_def)
next
  case a: (Some a)
  show ?thesis
  proof (cases B)
    case None
    then show ?thesis using a by (simp add: Add_def)
  next
    case b: (Some b)
    show ?thesis
    proof (cases "rows a \<noteq> rows b \<or> cols a \<noteq> cols b")
      case True
      then show ?thesis
        using a b by (auto simp add: Add_def GetRowCount_def GetColumnCount_def Let_def)
    next
      case same: False
      show ?thesis
      proof (cases "RowMatrix_ctor mem (rows a) (cols b)")
        case (Inl e)
        then have "Add mem A B = Inl e"
          using a b same by (simp add: Add_def GetRowCount_def GetColumnCount_def Let_def)
        moreover have "e \<noteq> OUT_OF_RANGE"
          using Inl RowMatrix_ctor_failure [of mem "rows a" "cols b"] by auto
        ultimately show ?thesis by simp
      next
        case (Inr R)
        then have R: "rows R = rows a" "cols R = cols b"
          using RowMatrix_ctor_shape [of mem "rows a" "cols b" R] by simp_all
        obtain R' where "Add_rows a b (rows a) (cols a) R 0 = Inr R'"
          using Add_rows_returns [of "cols a" a b R "rows a" 0] same R by auto
        then have "Add mem A B = Inr (Some R')"
          using a b same Inr by (simp add: Add_def GetRowCount_def GetColumnCount_def Let_def)
        then show ?thesis by simp
      qed
    qed
  qed
qed

lemma Multiply_not_out_of_range:
  "Multiply mem A B \<noteq> Inl OUT_OF_RANGE"
proof (cases A)
  case None
  then show ?thesis by (simp add: Multiply_early)
next
  case a: (Some a)
  show ?thesis
  proof (cases B)
    case None
    then show ?thesis by (simp add: Multiply_early)
  next
    case b: (Some b)
    show ?thesis
    proof (cases "cols a \<noteq> rows b")
      case True
      then show ?thesis using a b by (simp add: Multiply_early)
    next
      case same: False
      show ?thesis
      proof (cases "RowMatrix_ctor mem (rows a) (cols b)")
        case (Inl e)
        then have "Multiply mem A B = Inl e"
          using a b same by (simp add: Multiply_def GetRowCount_def GetColumnCount_def Let_def)
        moreover have "e \<noteq> OUT_OF_RANGE"
          using Inl RowMatrix_ctor_failure [of mem "rows a" "cols b"] by auto
        ultimately show ?thesis by simp
      next
        case (Inr R)
        then have R: "rows R = rows a" "cols R = cols b"
          using RowMatrix_ctor_shape [of mem "rows a" "cols b" R] by simp_all
        obtain R' where "Multiply_rows a b (rows a) (cols a) (cols b) R 0 = Inr R'"
          using Multiply_rows_returns [of "cols a" a b "cols b" R "rows a" 0] same R by auto
        then have "Multiply mem A B = Inr \<lparr>returned = None, local_result = Some R'\<rparr>"
          using a b same Inr by (simp add: Multiply_def GetRowCount_def GetColumnCount_def Let_def)
        then show ?thesis by simp
      qed
    qed
  qed
qed

subsection \<open>The long operands\<close>

lemma long_column_ok: "operand_ok (Some long_column)"
  by (simp add: operand_ok_def RowMatrix_inv_def long_column_def INT_MAX_def)

lemma long_row_ok: "operand_ok (Some long_row)"
  by (simp add: operand_ok_def RowMatrix_inv_def long_row_def INT_MAX_def)

lemma long_shapes:
  "rows long_column = 46341" "cols long_column = 1" "rows long_row = 1" "cols long_row = 46341"
  by (simp_all add: long_column_def long_row_def)

subsection \<open>\<open>Multiply\<close> and \<open>GEMM\<close>\<close>

text \<open>
  Claim C1, at the operands of the GEMM scenario, \<open>A = [[1,2],[3,4]]\<close> and
  \<open>B = [[5,6],[7,8]]\<close>: the loops of \<open>Multiply\<close> fill the fresh matrix with
  \<open>[[19,22],[43,50]]\<close>, the product, and \<open>Multiply\<close> returns \<open>nullptr\<close>, not that
  matrix, which it leaves behind in its local \<open>result\<close>.
\<close>

theorem Multiply_scenario:
  "RowMatrix_ctor (\<lambda>_. 0 :: int) 2 2 = Inr \<lparr>rows = 2, cols = 2, linear = [0, 0, 0, 0], data = [0, 2]\<rparr>
   \<and> Multiply_rows gemm_A gemm_B 2 2 2
        \<lparr>rows = 2, cols = 2, linear = [0, 0, 0, 0], data = [0, 2]\<rparr> 0
       = Inr \<lparr>rows = 2, cols = 2, linear = [19, 22, 43, 50], data = [0, 2]\<rparr>
   \<and> Multiply (\<lambda>_. 0) (Some gemm_A) (Some gemm_B)
       = Inr \<lparr>returned = None,
              local_result = Some \<lparr>rows = 2, cols = 2, linear = [19, 22, 43, 50], data = [0, 2]\<rparr>\<rparr>"
  by code_simp

text \<open>
  Claim C2 as stated, "for every pair of inputs \<open>Multiply\<close> returns the absent
  result", fails: for the column of 46341 cells and the row of 46341 cells, both
  built by the constructor and with \<open>A.cols = B.rows = 1\<close>, the \<open>int\<close> cell count
  of the result is negative and \<open>Multiply\<close> ends in the exception of \<open>new\<close>; it
  returns nothing.
\<close>

theorem Multiply_long_operands_throw:
  "operand_ok (Some long_column) \<and> operand_ok (Some long_row)
   \<and> cols long_column = rows long_row
   \<and> Multiply (\<lambda>_. 0) (Some long_column) (Some long_row) = Inl BAD_ARRAY_NEW_LENGTH"
proof -
  have "int_wrap (rows long_column * cols long_row) < 0"
    by (simp add: long_shapes int_wrap_def)
  then have "Multiply (\<lambda>_. 0) (Some long_column) (Some long_row) = Inl BAD_ARRAY_NEW_LENGTH"
    by (intro Multiply_throws) (simp_all add: long_shapes)
  then show ?thesis
    using long_column_ok long_row_ok by (simp add: long_shapes)
qed

text \<open>
  Claim C2, amended. For operands that are \<open>nullptr\<close> or were built by the
  constructor: when an operand is \<open>nullptr\<close> or \<open>A.cols \<noteq> B.rows\<close>, \<open>Multiply\<close>
  returns \<open>nullptr\<close> at once; when both are present, \<open>A.cols = B.rows\<close> and
  \<open>A.rows * B.cols\<close> is an \<open>int\<close>, \<open>Multiply\<close> runs its loops to the end, which leaves
  the product in the fresh \<open>A.rows \<times> B.cols\<close> matrix \<open>result\<close>, and returns \<open>nullptr\<close>,
  not that matrix.
\<close>

theorem Multiply_drops_product:
  assumes "operand_ok A" "operand_ok B"
  shows "(A = None \<or> B = None \<or> (\<exists>a b. A = Some a \<and> B = Some b \<and> cols a \<noteq> rows b) \<longrightarrow>
            Multiply mem A B = Inr \<lparr>returned = None, local_result = None\<rparr>)
       \<and> (\<forall>a b. A = Some a \<and> B = Some b \<and> cols a = rows b \<and> rows a * cols b \<le> INT_MAX \<longrightarrow>
            Multiply mem A B =
            Inr \<lparr>returned = None,
                 local_result =
                   Some \<lparr>rows = rows a, cols = cols b,
                         linear = map (product_cell a b) [0..<nat (rows a * cols b)],
                         data = map (\<lambda>k. int k * cols b) [0..<nat (rows a)]\<rparr>\<rparr>)"
proof (intro conjI allI impI)
  assume "A = None \<or> B = None \<or> (\<exists>a b. A = Some a \<and> B = Some b \<and> cols a \<noteq> rows b)"
  then show "Multiply mem A B = Inr \<lparr>returned = None, local_result = None\<rparr>"
    by (auto simp add: Multiply_early)
next
  fix a b
  assume h: "A = Some a \<and> B = Some b \<and> cols a = rows b \<and> rows a * cols b \<le> INT_MAX"
  then have "RowMatrix_inv a" "RowMatrix_inv b"
    using assms by (auto simp add: operand_ok_def)
  moreover from h have "cols a = rows b" "rows a * cols b \<le> INT_MAX"
    by auto
  ultimately have "Multiply mem (Some a) (Some b) =
      Inr \<lparr>returned = None,
           local_result =
             Some \<lparr>rows = rows a, cols = cols b,
                   linear = map (product_cell a b) [0..<nat (rows a * cols b)],
                   data = map (\<lambda>k. int k * cols b) [0..<nat (rows a)]\<rparr>\<rparr>"
    by (rule Multiply_present)
  then show "Multiply mem A B =
      Inr \<lparr>returned = None,
           local_result =
             Some \<lparr>rows = rows a, cols = cols b,
                   linear = map (product_cell a b) [0..<nat (rows a * cols b)],
                   data = map (\<lambda>k. int k * cols b) [0..<nat (rows a)]\<rparr>\<rparr>"
    using h by simp
qed

theorem Multiply_drops_product_witness:
  "operand_ok (Some gemm_A) \<and> operand_ok (Some gemm_B)
   \<and> cols gemm_A = rows gemm_B \<and> rows gemm_A * cols gemm_B \<le> INT_MAX
   \<and> Multiply (\<lambda>_. 0) (Some gemm_A) (Some gemm_B)
       = Inr \<lparr>returned = None,
              local_result = Some \<lparr>rows = 2, cols = 2, linear = [19, 22, 43, 50], data = [0, 2]\<rparr>\<rparr>
   \<and> cols sample_2x3 \<noteq> rows other_2x3
   \<and> Multiply (\<lambda>_. 0) (Some sample_2x3) (Some other_2x3)
       = Inr \<lparr>returned = None, local_result = None\<rparr>"
proof -
  have ok: "operand_ok (Some gemm_A)" "operand_ok (Some gemm_B)"
    using gemm_A_inv gemm_B_inv by (simp_all add: operand_ok_def gemm_A_def gemm_B_def INT_MAX_def)
  have shape: "cols gemm_A = rows gemm_B \<and> rows gemm_A * cols gemm_B \<le> INT_MAX"
    by (simp add: gemm_A_def gemm_B_def INT_MAX_def)
  have "Multiply (\<lambda>_. 0) (Some gemm_A) (Some gemm_B) =
      Inr \<lparr>returned = None,
           local_result =
             Some \<lparr>rows = rows gemm_A, cols = cols gemm_B,
                   linear = map (product_cell gemm_A gemm_B) [0..<nat (rows gemm_A * cols gemm_B)],
                   data = map (\<lambda>k. int k * cols gemm_B) [0..<nat (rows gemm_A)]\<rparr>\<rparr>"
    using Multiply_drops_product [OF ok, of "\<lambda>_. 0"] shape by blast
  moreover have "\<lparr>rows = rows gemm_A, cols = cols gemm_B,
        linear = map (product_cell gemm_A gemm_B) [0..<nat (rows gemm_A * cols gemm_B)],
        data = map (\<lambda>k. int k * cols gemm_B) [0..<nat (rows gemm_A)]\<rparr>
      = \<lparr>rows = 2, cols = 2, linear = [19, 22, 43, 50], data = [0, 2]\<rparr>"
    by code_simp
  ultimately have product: "Multiply (\<lambda>_. 0) (Some gemm_A) (Some gemm_B)
       = Inr \<lparr>returned = None,
              local_result = Some \<lparr>rows = 2, cols = 2, linear = [19, 22, 43, 50], data = [0, 2]\<rparr>\<rparr>"
    by simp
  have ok': "operand_ok (Some sample_2x3)" "operand_ok (Some other_2x3)"
    using sample_2x3_inv other_2x3_inv
    by (simp_all add: operand_ok_def sample_2x3_def other_2x3_def INT_MAX_def)
  have differ: "cols sample_2x3 \<noteq> rows other_2x3"
    by (simp add: sample_2x3_def other_2x3_def)
  have early: "Multiply (\<lambda>_. 0) (Some sample_2x3) (Some other_2x3)
       = Inr \<lparr>returned = None, local_result = None\<rparr>"
    using Multiply_drops_product [OF ok', of "\<lambda>_. 0"] differ by blast
  show ?thesis using ok shape product differ early by blast
qed

text \<open>
  What the scenario expects of \<open>GEMM\<close>: \<open>Add\<close> of the matrix that the loops of
  \<open>Multiply\<close> fill, \<open>[[19,22],[43,50]]\<close>, and \<open>C = [[1,1],[1,1]]\<close> is
  \<open>[[20,23],[44,51]]\<close>.
\<close>

lemma Add_product_scenario:
  "Add (\<lambda>_. 0) (Some \<lparr>rows = 2, cols = 2, linear = [19, 22, 43, 50], data = [0, 2]\<rparr>) (Some gemm_C)
     = Inr (Some \<lparr>rows = 2, cols = 2, linear = [20, 23, 44, 51], data = [0, 2]\<rparr>)"
  by code_simp

text \<open>
  Claim C3, at the operands of the GEMM scenario, \<open>A = [[1,2],[3,4]]\<close>,
  \<open>B = [[5,6],[7,8]]\<close> and \<open>C = [[1,1],[1,1]]\<close>. As written, line 125 is ill-formed
  once \<open>GEMM\<close> is instantiated and returns nothing. Read with the held pointer, it
  fares no better: \<open>Multiply(A, B)\<close> returns \<open>nullptr\<close>, leaving the product in its
  local \<open>result\<close>, and so \<open>GEMM(A, B, C)\<close> returns \<open>nullptr\<close>, not \<open>[[20,23],[44,51]]\<close>.
\<close>

theorem GEMM_scenario:
  "Multiply (\<lambda>_. 0) (Some gemm_A) (Some gemm_B)
     = Inr \<lparr>returned = None,
            local_result = Some \<lparr>rows = 2, cols = 2, linear = [19, 22, 43, 50], data = [0, 2]\<rparr>\<rparr>
   \<and> GEMM (\<lambda>_. 0) (Some gemm_A) (Some gemm_B) (Some gemm_C) = Inr None"
  by code_simp

text \<open>
  Line 125 read with the held pointer, when \<open>Multiply\<close> returns \<open>nullptr\<close>: the value
  of \<open>GEMM\<close> is the value of \<open>Add\<close> called with \<open>nullptr\<close> for its first operand,
  which is \<open>nullptr\<close>. The composition has no test of its own; it does call \<open>Add\<close>
  with the missing operand, and it is the null test of \<open>Add\<close> that answers. This
  is a fact about the reading, not about the member as written, which has no
  value.
\<close>

lemma GEMM_held_pointer_absent:
  assumes "Multiply mem A B = Inr x" "returned x = None"
  shows "GEMM mem A B C = Add mem None C \<and> GEMM mem A B C = Inr None"
  using assms by (simp add: GEMM_def Add_absent)

text \<open>
  Claim C9. Whatever the operands, \<open>Add\<close> and \<open>Multiply\<close> do not end in the
  out-of-range exception: an accessor that throws inside them ends the operation
  with its exception, so every \<open>GetElement\<close> and \<open>SetElement\<close> call they make has
  its indices within the \<open>rows\<close> and \<open>cols\<close> of the matrix it is made on. The calls
  are made: for operands that are \<open>nullptr\<close> or were built by the constructor,
  \<open>Add\<close> returns normally, and so does \<open>Multiply\<close> when the cell count of its
  result is an \<open>int\<close>.
\<close>

theorem Add_Multiply_in_range:
  fixes A B :: "'a::{zero,plus,times} RowMatrix option"
  shows "Add mem A B \<noteq> Inl OUT_OF_RANGE \<and> Multiply mem A B \<noteq> Inl OUT_OF_RANGE
       \<and> (operand_ok A \<and> operand_ok B \<longrightarrow> (\<exists>r. Add mem A B = Inr r))
       \<and> (operand_ok A \<and> operand_ok B \<and>
          (\<forall>a b. A = Some a \<and> B = Some b \<and> cols a = rows b \<longrightarrow> rows a * cols b \<le> INT_MAX) \<longrightarrow>
            (\<exists>x. Multiply mem A B = Inr x))"
proof (intro conjI impI)
  show "Add mem A B \<noteq> Inl OUT_OF_RANGE" by (rule Add_not_out_of_range)
  show "Multiply mem A B \<noteq> Inl OUT_OF_RANGE" by (rule Multiply_not_out_of_range)
next
  assume ok: "operand_ok A \<and> operand_ok B"
  show "\<exists>r. Add mem A B = Inr r"
  proof (cases A)
    case None
    then show ?thesis by (simp add: Add_absent)
  next
    case a: (Some a)
    show ?thesis
    proof (cases B)
      case None
      then show ?thesis by (simp add: Add_absent)
    next
      case b: (Some b)
      have valid: "RowMatrix_inv a" "RowMatrix_inv b" "rows a * cols a \<le> INT_MAX"
        using ok a b by (auto simp add: operand_ok_def)
      show ?thesis
      proof (cases "rows a = rows b \<and> cols a = cols b")
        case True
        then have "rows b = rows a" "cols b = cols a" by auto
        then show ?thesis
          using a b Add_present [OF valid(1,2) _ _ valid(3), of mem] by simp
      next
        case False
        then show ?thesis
          using a b Add_absent(3) [of a b mem] by auto
      qed
    qed
  qed
next
  assume h: "operand_ok A \<and> operand_ok B \<and>
      (\<forall>a b. A = Some a \<and> B = Some b \<and> cols a = rows b \<longrightarrow> rows a * cols b \<le> INT_MAX)"
  show "\<exists>x. Multiply mem A B = Inr x"
  proof (cases A)
    case None
    then show ?thesis by (simp add: Multiply_early)
  next
    case a: (Some a)
    show ?thesis
    proof (cases B)
      case None
      then show ?thesis by (simp add: Multiply_early)
    next
      case b: (Some b)
      have valid: "RowMatrix_inv a" "RowMatrix_inv b"
        using h a b by (auto simp add: operand_ok_def)
      show ?thesis
      proof (cases "cols a = rows b")
        case True
        then have "rows a * cols b \<le> INT_MAX" using h a b by blast
        then show ?thesis
          using a b Multiply_present [OF valid True, of mem] by simp
      next
        case False
        then show ?thesis
          using a b Multiply_early(3) [of a b mem] by simp
      qed
    qed
  qed
qed

theorem Add_Multiply_in_range_witness:
  "operand_ok (Some gemm_A) \<and> operand_ok (Some gemm_B)
   \<and> cols gemm_A = rows gemm_B \<and> rows gemm_A * cols gemm_B \<le> INT_MAX
   \<and> Add (\<lambda>_. 0) (Some gemm_A) (Some gemm_B) \<noteq> Inl OUT_OF_RANGE
   \<and> Multiply (\<lambda>_. 0) (Some gemm_A) (Some gemm_B) \<noteq> Inl OUT_OF_RANGE
   \<and> (\<exists>r. Add (\<lambda>_. 0) (Some gemm_A) (Some gemm_B) = Inr r)
   \<and> (\<exists>x. Multiply (\<lambda>_. 0) (Some gemm_A) (Some gemm_B) = Inr x)
   \<and> Multiply (\<lambda>_. 0) (Some long_column) (Some long_row) \<noteq> Inl OUT_OF_RANGE"
proof -
  have ok: "operand_ok (Some gemm_A)" "operand_ok (Some gemm_B)"
    using gemm_A_inv gemm_B_inv by (simp_all add: operand_ok_def gemm_A_def gemm_B_def INT_MAX_def)
  have shape: "cols gemm_A = rows gemm_B" "rows gemm_A * cols gemm_B \<le> INT_MAX"
    by (simp_all add: gemm_A_def gemm_B_def INT_MAX_def)
  have fits: "\<forall>a b. Some gemm_A = Some a \<and> Some gemm_B = Some b \<and> cols a = rows b \<longrightarrow>
      rows a * cols b \<le> INT_MAX"
    using shape by simp
  have "Add (\<lambda>_. 0) (Some gemm_A) (Some gemm_B) \<noteq> Inl OUT_OF_RANGE"
    and "Multiply (\<lambda>_. 0) (Some gemm_A) (Some gemm_B) \<noteq> Inl OUT_OF_RANGE"
    and "\<exists>r. Add (\<lambda>_. 0) (Some gemm_A) (Some gemm_B) = Inr r"
    and "\<exists>x. Multiply (\<lambda>_. 0) (Some gemm_A) (Some gemm_B) = Inr x"
    using Add_Multiply_in_range [of "\<lambda>_. 0" "Some gemm_A" "Some gemm_B"] ok fits by blast+
  moreover have "Multiply (\<lambda>_. 0) (Some long_column) (Some long_row) \<noteq> Inl OUT_OF_RANGE"
    using Add_Multiply_in_range [of "\<lambda>_. 0" "Some long_column" "Some long_row"] by blast
  ultimately show ?thesis using ok shape by blast
qed

end
